theory Spec2Isabelle
  imports Complex_Main "HOL-Library.Sublist"
begin

section \<open>Drone inspection controller: the model\<close>

text \<open>
  A shallow embedding of \<^verbatim>\<open>controllers/drone_inspector/drone_inspector.py\<close>.
  Python floats are modelled as the real numbers, \<^verbatim>\<open>math.pi\<close> as \<open>pi\<close>, and
  every exception the main loop can raise (subscripting or subtracting \<^verbatim>\<open>None\<close>,
  indexing a list out of range) is a value of type \<open>error\<close>. The main loop is a
  function \<open>tick\<close> from one set of sensor readings and the controller's variables to
  the updated variables and the commands written to the platform; \<open>run\<close> iterates it
  over the readings the host supplies. Console output and the LED blinking are left out.
\<close>

subsection \<open>Helpers\<close>

datatype error = TypeError | IndexError

definition clamp :: "real \<Rightarrow> real \<Rightarrow> real \<Rightarrow> real" where
  "clamp val low high = max low (min val high)"

text \<open>
  The two \<^verbatim>\<open>while\<close> loops of \<^verbatim>\<open>normalize_angle\<close>, in the order of the source.
  With exact arithmetic both loops end on every input. In double precision a loop makes
  progress only while adding or subtracting \<open>2\<pi>\<close> changes the value, which is so up to
  magnitude \<open>2\<^sup>5\<^sup>6\<close> and no further (\<^verbatim>\<open>1e17 - 2 * math.pi == 1e17\<close>): beyond it the
  code does not return. What is stated about the result of \<^verbatim>\<open>normalize_angle\<close> is
  therefore stated for inputs of magnitude at most \<open>2\<^sup>5\<^sup>6\<close>.
\<close>

function subtract_turns :: "real \<Rightarrow> real" where
  "subtract_turns angle = (if angle > pi then subtract_turns (angle - 2 * pi) else angle)"
  by pat_completeness auto
termination
proof (relation "measure (\<lambda>angle. nat \<lceil>(angle - pi) / (2 * pi)\<rceil>)")
  show "wf (measure (\<lambda>angle. nat \<lceil>(angle - pi) / (2 * pi)\<rceil>))"
    by simp
next
  fix angle :: real
  assume gt: "pi < angle"
  have "(angle - 2 * pi - pi) / (2 * pi) = (angle - pi) / (2 * pi) - 1"
    by (simp add: field_simps)
  then have step: "\<lceil>(angle - 2 * pi - pi) / (2 * pi)\<rceil> = \<lceil>(angle - pi) / (2 * pi)\<rceil> - 1"
    by simp
  have "0 < (angle - pi) / (2 * pi)"
    using gt by simp
  then have "0 < \<lceil>(angle - pi) / (2 * pi)\<rceil>"
    by linarith
  with step show "(angle - 2 * pi, angle) \<in> measure (\<lambda>angle. nat \<lceil>(angle - pi) / (2 * pi)\<rceil>)"
    by simp
qed

function add_turns :: "real \<Rightarrow> real" where
  "add_turns angle = (if angle < - pi then add_turns (angle + 2 * pi) else angle)"
  by pat_completeness auto
termination
proof (relation "measure (\<lambda>angle. nat \<lceil>(- pi - angle) / (2 * pi)\<rceil>)")
  show "wf (measure (\<lambda>angle. nat \<lceil>(- pi - angle) / (2 * pi)\<rceil>))"
    by simp
next
  fix angle :: real
  assume lt: "angle < - pi"
  have "(- pi - (angle + 2 * pi)) / (2 * pi) = (- pi - angle) / (2 * pi) - 1"
    by (simp add: field_simps)
  then have step: "\<lceil>(- pi - (angle + 2 * pi)) / (2 * pi)\<rceil> = \<lceil>(- pi - angle) / (2 * pi)\<rceil> - 1"
    by simp
  have "0 < (- pi - angle) / (2 * pi)"
    using lt by simp
  then have "0 < \<lceil>(- pi - angle) / (2 * pi)\<rceil>"
    by linarith
  with step show "(angle + 2 * pi, angle) \<in> measure (\<lambda>angle. nat \<lceil>(- pi - angle) / (2 * pi)\<rceil>)"
    by simp
qed

declare subtract_turns.simps [simp del]
declare add_turns.simps [simp del]

definition normalize_angle :: "real \<Rightarrow> real" where
  "normalize_angle angle = add_turns (subtract_turns angle)"

definition decompose_displacement :: "real \<Rightarrow> real \<Rightarrow> real \<Rightarrow> real \<times> real" where
  "decompose_displacement dx dy heading =
     (let cos_h = cos heading;
          sin_h = sin heading;
          forward = dx * cos_h + dy * sin_h;
          right = dx * sin_h - dy * cos_h
      in (forward, right))"

subsection \<open>Flight states and configuration\<close>

datatype FlightState =
  TAKEOFF | STABILIZE | SIDE_1 | TURN_1 | SIDE_2 | TURN_2 | SIDE_3 | TURN_3 | SIDE_4
  | LAND | DONE

record config =
  building_length :: real
  building_breadth :: real
  building_height :: real

text \<open>
  \<^verbatim>\<open>load_config\<close>: the argument is the content of \<^verbatim>\<open>config.json\<close>, \<open>None\<close> when
  the file does not exist (\<^verbatim>\<open>FileNotFoundError\<close>).
\<close>

definition load_config :: "config option \<Rightarrow> config" where
  "load_config file =
     (case file of
        Some cfg \<Rightarrow> cfg
      | None \<Rightarrow> \<lparr>building_length = 20, building_breadth = 10, building_height = 8\<rparr>)"

subsection \<open>Constants of the main function\<close>

definition K_VERTICAL_THRUST :: real where "K_VERTICAL_THRUST = 68.5"
definition K_VERTICAL_OFFSET :: real where "K_VERTICAL_OFFSET = 0.6"
definition K_VERTICAL_P :: real where "K_VERTICAL_P = 3"
definition K_ROLL_P :: real where "K_ROLL_P = 50"
definition K_PITCH_P :: real where "K_PITCH_P = 30"
definition STRAFE_SPEED :: real where "STRAFE_SPEED = 1"
definition ANGLE_TOLERANCE :: real where "ANGLE_TOLERANCE = 0.05"
definition STABILIZE_TIME :: real where "STABILIZE_TIME = 3"
definition K_FORWARD_CORRECTION :: real where "K_FORWARD_CORRECTION = 3"
definition CAMERA_TILT :: real where "CAMERA_TILT = 0.3"
definition IMAGES_PER_SIDE :: nat where "IMAGES_PER_SIDE = 4"

subsection \<open>The variables of the main function\<close>

record ctrl_state =
  state :: FlightState
  state_start_pos :: "(real \<times> real \<times> real) option"
  target_yaw :: real
  current_side_distance :: real
  side_distances :: "real list"
  side_index :: nat
  accumulated_yaw :: real
  stabilize_start_time :: "real option"
  capture_distances :: "real list"
  images_taken_this_side :: nat
  image_counter :: nat
  target_altitude :: real

text \<open>The assignments of lines 101--184, before the sensors have warmed up.\<close>

definition startup :: "config \<Rightarrow> ctrl_state" where
  "startup cfg =
     \<lparr>state = TAKEOFF,
      state_start_pos = None,
      target_yaw = 0,
      current_side_distance = 0,
      side_distances = [building_length cfg, building_breadth cfg,
                        building_length cfg, building_breadth cfg],
      side_index = 0,
      accumulated_yaw = 0,
      stabilize_start_time = None,
      capture_distances = [],
      images_taken_this_side = 0,
      image_counter = 0,
      target_altitude = building_height cfg / 2\<rparr>"

text \<open>The state on entry to the main loop: the heading is calibrated to the first yaw reading.\<close>

definition initial :: "config \<Rightarrow> real \<Rightarrow> ctrl_state" where
  "initial cfg initial_yaw = (startup cfg)\<lparr>accumulated_yaw := initial_yaw\<rparr>"

subsection \<open>Sensor readings and commands of one tick\<close>

record sensors =
  time :: real
  roll :: real
  pitch :: real
  yaw :: real
  roll_velocity :: real
  pitch_velocity :: real
  gps_pos :: "real \<times> real \<times> real"

definition altitude :: "sensors \<Rightarrow> real" where
  "altitude inp = (case gps_pos inp of (x, y, z) \<Rightarrow> z)"

record disturbances =
  roll_disturbance :: real
  pitch_disturbance :: real
  yaw_disturbance :: real

text \<open>
  The commands of one tick: the two gimbal positions, the velocities set on
  \<^verbatim>\<open>motors[0..3]\<close>, and the number in the file name of the image saved, if any.
\<close>

record commands =
  camera_roll :: real
  camera_pitch :: real
  motor_velocities :: "real \<times> real \<times> real \<times> real"
  saved_image :: "nat option"

subsection \<open>Capture scheduling\<close>

definition subscript :: "'a list \<Rightarrow> nat \<Rightarrow> error + 'a" where
  "subscript xs i = (if i < length xs then Inr (xs ! i) else Inl IndexError)"

definition begin_side :: "real \<Rightarrow> real \<times> real \<times> real \<Rightarrow> ctrl_state \<Rightarrow> ctrl_state" where
  "begin_side side_dist gps_position s =
     s\<lparr>state_start_pos := Some gps_position,
       current_side_distance := side_dist,
       images_taken_this_side := 0,
       capture_distances :=
         map (\<lambda>i. side_dist * (real i + 1) / real IMAGES_PER_SIDE) [0..<IMAGES_PER_SIDE]\<rparr>"

text \<open>
  The distance-based image capture of lines 286--294, which the specification calls
  \<^verbatim>\<open>on_progress\<close>: one \<^verbatim>\<open>if\<close>, whose condition short-circuits before the list is
  indexed. The result carries the number of the image saved.
\<close>

definition on_progress :: "real \<Rightarrow> ctrl_state \<Rightarrow> error + ctrl_state \<times> nat option" where
  "on_progress distance_traveled s =
     (if images_taken_this_side s < IMAGES_PER_SIDE then
        (case subscript (capture_distances s) (images_taken_this_side s) of
           Inl e \<Rightarrow> Inl e
         | Inr threshold \<Rightarrow>
             if distance_traveled \<ge> threshold then
               Inr (s\<lparr>image_counter := image_counter s + 1,
                      images_taken_this_side := images_taken_this_side s + 1\<rparr>,
                    Some (image_counter s + 1))
             else Inr (s, None))
      else Inr (s, None))"

text \<open>Successive progress reports on one side, with the image saved (or not) at each.\<close>

fun progress_reports :: "real list \<Rightarrow> ctrl_state \<Rightarrow> error + ctrl_state \<times> nat option list" where
  "progress_reports [] s = Inr (s, [])"
| "progress_reports (d # ds) s =
     (case on_progress d s of
        Inl e \<Rightarrow> Inl e
      | Inr (s1, fired) \<Rightarrow>
          (case progress_reports ds s1 of
             Inl e \<Rightarrow> Inl e
           | Inr (s2, rest) \<Rightarrow> Inr (s2, fired # rest)))"

subsection \<open>The state machine\<close>

datatype nav_result = Break ctrl_state | Continue ctrl_state disturbances "nat option"

definition no_disturbance :: disturbances where
  "no_disturbance = \<lparr>roll_disturbance = 0, pitch_disturbance = 0, yaw_disturbance = 0\<rparr>"

text \<open>Lines 297--315: the check whether the side is complete.\<close>

definition complete_side :: "real \<Rightarrow> ctrl_state \<Rightarrow> ctrl_state" where
  "complete_side distance_traveled s =
     (if distance_traveled \<ge> current_side_distance s then
        (if state s = SIDE_1 then
           s\<lparr>accumulated_yaw := accumulated_yaw s + pi / 2,
             target_yaw := accumulated_yaw s + pi / 2,
             state := TURN_1\<rparr>
         else if state s = SIDE_2 then
           s\<lparr>accumulated_yaw := accumulated_yaw s + pi / 2,
             target_yaw := accumulated_yaw s + pi / 2,
             state := TURN_2\<rparr>
         else if state s = SIDE_3 then
           s\<lparr>accumulated_yaw := accumulated_yaw s + pi / 2,
             target_yaw := accumulated_yaw s + pi / 2,
             state := TURN_3\<rparr>
         else if state s = SIDE_4 then
           s\<lparr>state := LAND\<rparr>
         else s)
      else s)"

definition side_step :: "sensors \<Rightarrow> ctrl_state \<Rightarrow> error + nav_result" where
  "side_step inp s =
     (case state_start_pos s of
        None \<Rightarrow> Inl TypeError
      | Some (x0, y0, z0) \<Rightarrow>
          (case gps_pos inp of (x, y, z) \<Rightarrow>
             (let dx = x - x0;
                  dy = y - y0;
                  (forward_drift, lateral_distance) =
                     decompose_displacement dx dy (accumulated_yaw s);
                  yaw_error = normalize_angle (accumulated_yaw s - yaw inp);
                  distance_traveled = \<bar>lateral_distance\<bar>
              in (case on_progress distance_traveled s of
                    Inl e \<Rightarrow> Inl e
                  | Inr (s1, fired) \<Rightarrow>
                      Inr (Continue (complete_side distance_traveled s1)
                             \<lparr>roll_disturbance = - STRAFE_SPEED,
                              pitch_disturbance = K_FORWARD_CORRECTION * forward_drift,
                              yaw_disturbance = 2 * yaw_error\<rparr>
                             fired)))))"

definition turn_step :: "sensors \<Rightarrow> ctrl_state \<Rightarrow> error + nav_result" where
  "turn_step inp s =
     (let yaw_error = normalize_angle (target_yaw s - yaw inp);
          d = \<lparr>roll_disturbance = 0, pitch_disturbance = 0, yaw_disturbance = 2 * yaw_error\<rparr>
      in if \<bar>yaw_error\<bar> < ANGLE_TOLERANCE then
           (let s1 = (if state s = TURN_1 then s\<lparr>side_index := 1, state := SIDE_2\<rparr>
                      else if state s = TURN_2 then s\<lparr>side_index := 2, state := SIDE_3\<rparr>
                      else if state s = TURN_3 then s\<lparr>side_index := 3, state := SIDE_4\<rparr>
                      else s)
            in (case subscript (side_distances s1) (side_index s1) of
                  Inl e \<Rightarrow> Inl e
                | Inr side_dist \<Rightarrow> Inr (Continue (begin_side side_dist (gps_pos inp) s1) d None)))
         else Inr (Continue s d None))"

definition state_machine :: "sensors \<Rightarrow> ctrl_state \<Rightarrow> error + nav_result" where
  "state_machine inp s =
     (if state s = TAKEOFF then
        (if altitude inp > target_altitude s - 0.3 then
           Inr (Continue (s\<lparr>state := STABILIZE, stabilize_start_time := Some (time inp)\<rparr>)
                  no_disturbance None)
         else Inr (Continue s no_disturbance None))
      else if state s = STABILIZE then
        (case stabilize_start_time s of
           None \<Rightarrow> Inl TypeError
         | Some t0 \<Rightarrow>
             if time inp - t0 > STABILIZE_TIME then
               (case subscript (side_distances s) 0 of
                  Inl e \<Rightarrow> Inl e
                | Inr side_dist \<Rightarrow>
                    Inr (Continue
                           (begin_side side_dist (gps_pos inp) (s\<lparr>state := SIDE_1, side_index := 0\<rparr>))
                           no_disturbance None))
             else Inr (Continue s no_disturbance None))
      else if state s \<in> {SIDE_1, SIDE_2, SIDE_3, SIDE_4} then side_step inp s
      else if state s \<in> {TURN_1, TURN_2, TURN_3} then turn_step inp s
      else if state s = LAND then
        (let s1 = s\<lparr>target_altitude := max 0 (target_altitude s - 0.005)\<rparr>
         in if altitude inp < 0.3 then Inr (Continue (s1\<lparr>state := DONE\<rparr>) no_disturbance None)
            else Inr (Continue s1 no_disturbance None))
      else Inr (Break s))"

subsection \<open>The stabilizer and one tick of the main loop\<close>

definition vertical_input :: "real \<Rightarrow> real \<Rightarrow> real" where
  "vertical_input target_alt alt =
     (let clamped_alt_diff = clamp (target_alt - alt + K_VERTICAL_OFFSET) (- 1) 1
      in K_VERTICAL_P * clamped_alt_diff ^ 3)"

definition motor_control :: "sensors \<Rightarrow> real \<Rightarrow> disturbances \<Rightarrow> real \<times> real \<times> real \<times> real" where
  "motor_control inp target_alt d =
     (let roll_input = K_ROLL_P * clamp (roll inp) (- 1) 1 + roll_velocity inp + roll_disturbance d;
          pitch_input = K_PITCH_P * clamp (pitch inp) (- 1) 1 + pitch_velocity inp + pitch_disturbance d;
          yaw_input = yaw_disturbance d;
          v = vertical_input target_alt (altitude inp);
          fl = K_VERTICAL_THRUST + v - roll_input + pitch_input - yaw_input;
          fr = K_VERTICAL_THRUST + v + roll_input + pitch_input + yaw_input;
          rl = K_VERTICAL_THRUST + v - roll_input - pitch_input + yaw_input;
          rr = K_VERTICAL_THRUST + v + roll_input - pitch_input - yaw_input
      in (fl, - fr, - rl, rr))"

datatype tick_result = Exit ctrl_state commands | Step ctrl_state commands

definition tick :: "sensors \<Rightarrow> ctrl_state \<Rightarrow> error + tick_result" where
  "tick inp s =
     (let cam_roll = - 0.115 * roll_velocity inp;
          cam_pitch = - 0.1 * pitch_velocity inp + CAMERA_TILT
      in (case state_machine inp s of
            Inl e \<Rightarrow> Inl e
          | Inr (Break s1) \<Rightarrow>
              Inr (Exit s1 \<lparr>camera_roll = cam_roll, camera_pitch = cam_pitch,
                            motor_velocities = (0, 0, 0, 0), saved_image = None\<rparr>)
          | Inr (Continue s1 d fired) \<Rightarrow>
              Inr (Step s1 \<lparr>camera_roll = cam_roll, camera_pitch = cam_pitch,
                            motor_velocities = motor_control inp (target_altitude s1) d,
                            saved_image = fired\<rparr>)))"

text \<open>
  The main loop over the readings of successive ticks. It ends when the host supplies no
  further reading, when the \<^verbatim>\<open>DONE\<close> branch breaks out of it, or with an exception.
\<close>

fun run :: "sensors list \<Rightarrow> ctrl_state \<Rightarrow> error + ctrl_state" where
  "run [] s = Inr s"
| "run (inp # inps) s =
     (case tick inp s of
        Inl e \<Rightarrow> Inl e
      | Inr (Exit s1 out) \<Rightarrow> Inr s1
      | Inr (Step s1 out) \<Rightarrow> run inps s1)"

text \<open>The flight state at the start of each tick of a run, and once more when the readings end.\<close>

fun phases :: "sensors list \<Rightarrow> ctrl_state \<Rightarrow> FlightState list" where
  "phases [] s = [state s]"
| "phases (inp # inps) s =
     (case tick inp s of
        Inl e \<Rightarrow> [state s]
      | Inr (Exit s1 out) \<Rightarrow> [state s]
      | Inr (Step s1 out) \<Rightarrow> state s # phases inps s1)"

definition flight_path :: "FlightState list" where
  "flight_path =
     [TAKEOFF, STABILIZE, SIDE_1, TURN_1, SIDE_2, TURN_2, SIDE_3, TURN_3, SIDE_4, LAND, DONE]"

subsection \<open>Auxiliary functions for stating the properties\<close>

text \<open>The numbers of the images saved by a sequence of progress reports, in order.\<close>

fun sequence_numbers :: "nat option list \<Rightarrow> nat list" where
  "sequence_numbers [] = []"
| "sequence_numbers (None # fs) = sequence_numbers fs"
| "sequence_numbers (Some n # fs) = n # sequence_numbers fs"

text \<open>Two progress reports in succession with the same distance: what each one saved.\<close>

definition on_progress_twice :: "real \<Rightarrow> ctrl_state \<Rightarrow> error + nat option \<times> nat option" where
  "on_progress_twice d s =
     (case on_progress d s of
        Inl e \<Rightarrow> Inl e
      | Inr (s1, first) \<Rightarrow>
          (case on_progress d s1 of
             Inl e \<Rightarrow> Inl e
           | Inr (s2, second) \<Rightarrow> Inr (first, second)))"

text \<open>
  The facts about the variables that every tick of the main loop preserves.
\<close>

definition loop_invariant :: "ctrl_state \<Rightarrow> bool" where
  "loop_invariant s \<longleftrightarrow>
     length (side_distances s) = 4 \<and>
     images_taken_this_side s \<le> IMAGES_PER_SIDE \<and>
     (state s \<noteq> TAKEOFF \<longrightarrow> stabilize_start_time s \<noteq> None) \<and>
     (state s \<in> {TAKEOFF, STABILIZE} \<longrightarrow> state_start_pos s = None) \<and>
     (state s \<notin> {TAKEOFF, STABILIZE} \<longrightarrow>
        state_start_pos s \<noteq> None \<and> length (capture_distances s) = IMAGES_PER_SIDE)"

subsection \<open>An example flight\<close>

text \<open>
  Readings of a level, motionless vehicle at a given time, yaw and position, and a flight
  around the default building (20 by 10 by 8) that starts at heading 0: take-off, the
  settle time, one reading at the end of each side, one at the end of each turn, the
  landing and the last tick. The states named below are the ones this flight reaches when
  side 1 begins, when side 1 is complete, and at the end.
\<close>

definition reading :: "real \<Rightarrow> real \<Rightarrow> real \<times> real \<times> real \<Rightarrow> sensors" where
  "reading t y g =
     \<lparr>time = t, roll = 0, pitch = 0, yaw = y, roll_velocity = 0, pitch_velocity = 0, gps_pos = g\<rparr>"

definition example_flight :: "sensors list" where
  "example_flight =
     [reading 2 0 (0, 0, 4),
      reading 6 0 (0, 0, 4),
      reading 30 0 (0, - 20, 4),
      reading 35 (pi / 2) (0, - 20, 4),
      reading 50 (pi / 2) (10, - 20, 4),
      reading 55 pi (10, - 20, 4),
      reading 80 pi (10, 0, 4),
      reading 85 (- pi / 2) (10, 0, 4),
      reading 100 (- pi / 2) (0, 0, 4),
      reading 130 (- pi / 2) (0, 0, 0.2),
      reading 131 (- pi / 2) (0, 0, 0.2)]"

definition side_1_start :: ctrl_state where
  "side_1_start =
     \<lparr>state = SIDE_1, state_start_pos = Some (0, 0, 4), target_yaw = 0,
      current_side_distance = 20, side_distances = [20, 10, 20, 10], side_index = 0,
      accumulated_yaw = 0, stabilize_start_time = Some 2,
      capture_distances = [5, 10, 15, 20], images_taken_this_side = 0,
      image_counter = 0, target_altitude = 4\<rparr>"

definition side_1_end :: ctrl_state where
  "side_1_end =
     \<lparr>state = TURN_1, state_start_pos = Some (0, 0, 4), target_yaw = pi / 2,
      current_side_distance = 20, side_distances = [20, 10, 20, 10], side_index = 0,
      accumulated_yaw = pi / 2, stabilize_start_time = Some 2,
      capture_distances = [5, 10, 15, 20], images_taken_this_side = 1,
      image_counter = 1, target_altitude = 4\<rparr>"

definition landed :: ctrl_state where
  "landed =
     \<lparr>state = DONE, state_start_pos = Some (10, 0, 4), target_yaw = 3 * pi / 2,
      current_side_distance = 10, side_distances = [20, 10, 20, 10], side_index = 3,
      accumulated_yaw = 3 * pi / 2, stabilize_start_time = Some 2,
      capture_distances = [5 / 2, 5, 15 / 2, 10], images_taken_this_side = 1,
      image_counter = 4, target_altitude = 3.995\<rparr>"

section \<open>Lemmas\<close>

subsection \<open>Angle normalization\<close>


lemma subtract_turns_id: "a \<le> pi \<Longrightarrow> subtract_turns a = a"
  by (subst subtract_turns.simps) simp



lemma add_turns_id: "- pi \<le> a \<Longrightarrow> add_turns a = a"
  by (subst add_turns.simps) simp



lemma normalize_angle_fixed: "- pi \<le> x \<Longrightarrow> x \<le> pi \<Longrightarrow> normalize_angle x = x"
  by (simp add: normalize_angle_def add_turns_id subtract_turns_id)




subsection \<open>Frame transform and vertical channel\<close>

lemma rotation_preserves_norm:
  fixes dx dy c s :: real
  shows "(dx * c + dy * s)\<^sup>2 + (dx * s - dy * c)\<^sup>2 = (dx\<^sup>2 + dy\<^sup>2) * (s\<^sup>2 + c\<^sup>2)"
  by (simp add: power2_eq_square algebra_simps)

lemma clamp_mono: "a \<le> b \<Longrightarrow> clamp a l h \<le> clamp b l h"
  by (simp add: clamp_def max_def min_def)

lemma cube_mono:
  fixes a b :: real
  shows "a \<le> b \<Longrightarrow> a ^ 3 \<le> b ^ 3"
  by (rule power_mono_odd) simp_all

lemma cube_strict_mono:
  fixes a b :: real
  assumes "a < b"
  shows "a ^ 3 < b ^ 3"
proof -
  have factor: "b ^ 3 - a ^ 3 = (b - a) * ((a + b / 2)\<^sup>2 + 3 / 4 * b\<^sup>2)"
    by (simp add: power3_eq_cube power2_eq_square algebra_simps)
  have "0 < (a + b / 2)\<^sup>2 + 3 / 4 * b\<^sup>2"
  proof (cases "b = 0")
    case True
    with assms have "a \<noteq> 0" by simp
    with True show ?thesis by simp
  next
    case False
    then have "0 < 3 / 4 * b\<^sup>2" by simp
    moreover have "0 \<le> (a + b / 2)\<^sup>2" by simp
    ultimately show ?thesis by linarith
  qed
  with assms have "0 < (b - a) * ((a + b / 2)\<^sup>2 + 3 / 4 * b\<^sup>2)"
    by simp
  with factor show ?thesis by simp
qed

lemma vertical_input_mono:
  "t1 - a1 \<le> t2 - a2 \<Longrightarrow> vertical_input t1 a1 \<le> vertical_input t2 a2"
  unfolding vertical_input_def Let_def K_VERTICAL_P_def
  using cube_mono [OF clamp_mono [of "t1 - a1 + K_VERTICAL_OFFSET" "t2 - a2 + K_VERTICAL_OFFSET" "- 1" 1]]
  by simp

lemma vertical_input_strict:
  "- 1 \<le> t1 - a1 + K_VERTICAL_OFFSET \<Longrightarrow> t1 - a1 < t2 - a2 \<Longrightarrow>
   t2 - a2 + K_VERTICAL_OFFSET \<le> 1 \<Longrightarrow> vertical_input t1 a1 < vertical_input t2 a2"
  unfolding vertical_input_def Let_def K_VERTICAL_P_def
  using cube_strict_mono [of "t1 - a1 + K_VERTICAL_OFFSET" "t2 - a2 + K_VERTICAL_OFFSET"]
  by (simp add: clamp_def)

lemma vertical_input_zero_error: "vertical_input t t = K_VERTICAL_OFFSET ^ 3 * K_VERTICAL_P"
  by (simp add: vertical_input_def clamp_def K_VERTICAL_OFFSET_def K_VERTICAL_P_def)

lemma vertical_input_saturates_high:
  "1 \<le> t - a + K_VERTICAL_OFFSET \<Longrightarrow> vertical_input t a = K_VERTICAL_P"
  by (simp add: vertical_input_def clamp_def)

lemma vertical_input_saturates_low:
  "t - a + K_VERTICAL_OFFSET \<le> - 1 \<Longrightarrow> vertical_input t a = - K_VERTICAL_P"
  by (simp add: vertical_input_def clamp_def)

subsection \<open>The capture scheduler and the branches of the state machine\<close>

lemma upt_images: "[0..<IMAGES_PER_SIDE] = [0, 1, 2, 3]"
  by (simp add: IMAGES_PER_SIDE_def eval_nat_numeral upt_conv_Cons)

lemma begin_side_thresholds:
  "capture_distances (begin_side L g s) = [L * 1 / 4, L * 2 / 4, L * 3 / 4, L * 4 / 4]"
  by (simp add: begin_side_def upt_images) (simp add: IMAGES_PER_SIDE_def)

lemma begin_side_fields:
  "images_taken_this_side (begin_side L g s) = 0"
  "image_counter (begin_side L g s) = image_counter s"
  "state (begin_side L g s) = state s"
  "state_start_pos (begin_side L g s) = Some g"
  "current_side_distance (begin_side L g s) = L"
  "side_distances (begin_side L g s) = side_distances s"
  "stabilize_start_time (begin_side L g s) = stabilize_start_time s"
  "accumulated_yaw (begin_side L g s) = accumulated_yaw s"
  "target_yaw (begin_side L g s) = target_yaw s"
  "target_altitude (begin_side L g s) = target_altitude s"
  "side_index (begin_side L g s) = side_index s"
  by (simp_all add: begin_side_def)

lemma begin_side_length: "length (capture_distances (begin_side L g s)) = IMAGES_PER_SIDE"
  by (simp add: begin_side_def)

lemma complete_side_fields:
  "images_taken_this_side (complete_side d s) = images_taken_this_side s"
  "image_counter (complete_side d s) = image_counter s"
  "state_start_pos (complete_side d s) = state_start_pos s"
  "side_distances (complete_side d s) = side_distances s"
  "stabilize_start_time (complete_side d s) = stabilize_start_time s"
  "capture_distances (complete_side d s) = capture_distances s"
  by (simp_all add: complete_side_def)

lemma complete_side_state:
  "state s \<in> {SIDE_1, SIDE_2, SIDE_3, SIDE_4} \<Longrightarrow>
   state (complete_side d s) \<notin> {TAKEOFF, STABILIZE}"
  by (auto simp: complete_side_def)

lemma on_progress_fields:
  assumes "on_progress d s = Inr (s1, fired)"
  shows "state s1 = state s"
    "state_start_pos s1 = state_start_pos s"
    "side_distances s1 = side_distances s"
    "stabilize_start_time s1 = stabilize_start_time s"
    "capture_distances s1 = capture_distances s"
    "accumulated_yaw s1 = accumulated_yaw s"
    "current_side_distance s1 = current_side_distance s"
    "images_taken_this_side s1 \<le> max (images_taken_this_side s) IMAGES_PER_SIDE"
    "image_counter s1 = image_counter s + (case fired of None \<Rightarrow> 0 | Some n \<Rightarrow> 1)"
    "fired = None \<or> fired = Some (image_counter s1)"
  using assms
  by (auto simp: on_progress_def split: if_splits sum.splits)

lemma on_progress_no_error:
  assumes "images_taken_this_side s < IMAGES_PER_SIDE \<longrightarrow> images_taken_this_side s < length (capture_distances s)"
  shows "on_progress d s \<noteq> Inl e"
  using assms by (auto simp: on_progress_def subscript_def)

lemma state_machine_takeoff:
  "state s = TAKEOFF \<Longrightarrow> state_machine inp s =
     (if altitude inp > target_altitude s - 0.3 then
        Inr (Continue (s\<lparr>state := STABILIZE, stabilize_start_time := Some (time inp)\<rparr>)
               no_disturbance None)
      else Inr (Continue s no_disturbance None))"
  by (simp add: state_machine_def)

lemma state_machine_stabilize:
  "state s = STABILIZE \<Longrightarrow> state_machine inp s =
     (case stabilize_start_time s of
           None \<Rightarrow> Inl TypeError
         | Some t0 \<Rightarrow>
             if time inp - t0 > STABILIZE_TIME then
               (case subscript (side_distances s) 0 of
                  Inl e \<Rightarrow> Inl e
                | Inr side_dist \<Rightarrow>
                    Inr (Continue
                           (begin_side side_dist (gps_pos inp) (s\<lparr>state := SIDE_1, side_index := 0\<rparr>))
                           no_disturbance None))
             else Inr (Continue s no_disturbance None))"
  by (simp add: state_machine_def)

lemma state_machine_side:
  "state s \<in> {SIDE_1, SIDE_2, SIDE_3, SIDE_4} \<Longrightarrow> state_machine inp s = side_step inp s"
  by (auto simp: state_machine_def)

lemma state_machine_turn:
  "state s \<in> {TURN_1, TURN_2, TURN_3} \<Longrightarrow> state_machine inp s = turn_step inp s"
  by (auto simp: state_machine_def)

lemma state_machine_land:
  "state s = LAND \<Longrightarrow> state_machine inp s =
     (let s1 = s\<lparr>target_altitude := max 0 (target_altitude s - 0.005)\<rparr>
         in if altitude inp < 0.3 then Inr (Continue (s1\<lparr>state := DONE\<rparr>) no_disturbance None)
            else Inr (Continue s1 no_disturbance None))"
  by (simp add: state_machine_def)

lemma state_machine_done:
  "state s = DONE \<Longrightarrow> state_machine inp s = Inr (Break s)"
  by (simp add: state_machine_def)

lemma side_step_result:
  assumes "side_step inp s = Inr r"
  shows "\<exists>dist s0 d fired. on_progress dist s = Inr (s0, fired) \<and>
           r = Continue (complete_side dist s0) d fired"
  using assms
  by (auto simp: side_step_def Let_def split: option.splits prod.splits sum.splits)

lemma phase_kinds:
  obtains (takeoff) "state s = TAKEOFF" | (stabilize) "state s = STABILIZE"
  | (side) "state s \<in> {SIDE_1, SIDE_2, SIDE_3, SIDE_4}"
  | (turn) "state s \<in> {TURN_1, TURN_2, TURN_3}"
  | (land) "state s = LAND" | (finished) "state s = DONE"
  by (cases "state s") auto

lemma turn_step_result:
  assumes "turn_step inp s = Inr r" "state s \<in> {TURN_1, TURN_2, TURN_3}"
  shows "\<exists>d. r = Continue s d None \<or>
     (\<exists>k side. (state s, k, side) \<in> {(TURN_1, 1, SIDE_2), (TURN_2, 2, SIDE_3), (TURN_3, 3, SIDE_4)} \<and>
        r = Continue (begin_side (side_distances s ! k) (gps_pos inp)
                        (s\<lparr>side_index := k, state := side\<rparr>)) d None)"
  using assms
  by (auto simp: turn_step_def Let_def subscript_def split: if_splits)

lemma state_machine_continue_cases:
  assumes sm: "state_machine inp s = Inr (Continue s1 d fired)"
  shows
    "(state s = TAKEOFF \<and> fired = None \<and>
        (s1 = s \<or> s1 = s\<lparr>state := STABILIZE, stabilize_start_time := Some (time inp)\<rparr>))
     \<or> (state s = STABILIZE \<and> fired = None \<and>
        (s1 = s \<or> s1 = begin_side (side_distances s ! 0) (gps_pos inp)
                          (s\<lparr>state := SIDE_1, side_index := 0\<rparr>)))
     \<or> (state s \<in> {SIDE_1, SIDE_2, SIDE_3, SIDE_4} \<and>
        (\<exists>dist s0. on_progress dist s = Inr (s0, fired) \<and> s1 = complete_side dist s0))
     \<or> (state s \<in> {TURN_1, TURN_2, TURN_3} \<and> fired = None \<and>
        (s1 = s \<or> (\<exists>k side. (state s, k, side) \<in> {(TURN_1, 1, SIDE_2), (TURN_2, 2, SIDE_3), (TURN_3, 3, SIDE_4)} \<and>
                 s1 = begin_side (side_distances s ! k) (gps_pos inp) (s\<lparr>side_index := k, state := side\<rparr>))))
     \<or> (state s = LAND \<and> fired = None \<and>
        (s1 = s\<lparr>target_altitude := max 0 (target_altitude s - 0.005)\<rparr> \<or>
         s1 = s\<lparr>target_altitude := max 0 (target_altitude s - 0.005), state := DONE\<rparr>))"
proof (cases s rule: phase_kinds)
  case takeoff
  with sm show ?thesis
    by (auto simp: state_machine_takeoff split: if_splits)
next
  case stabilize
  with sm show ?thesis
    by (auto simp: state_machine_stabilize subscript_def split: if_splits option.splits)
next
  case side
  with sm side_step_result [of inp s] show ?thesis
    by (auto simp: state_machine_side)
next
  case turn
  with sm turn_step_result [of inp s] show ?thesis
    by (simp add: state_machine_turn) blast
next
  case land
  with sm show ?thesis
    by (auto simp: state_machine_land Let_def split: if_splits)
next
  case finished
  with sm show ?thesis
    by (simp add: state_machine_done)
qed

lemma state_machine_break:
  assumes sm: "state_machine inp s = Inr (Break s1)"
  shows "state s = DONE \<and> s1 = s"
proof (cases s rule: phase_kinds)
  case takeoff
  with sm show ?thesis
    by (auto simp: state_machine_takeoff split: if_splits)
next
  case stabilize
  with sm show ?thesis
    by (auto simp: state_machine_stabilize split: if_splits option.splits sum.splits)
next
  case side
  with sm side_step_result [of inp s] show ?thesis
    by (auto simp: state_machine_side)
next
  case turn
  with sm turn_step_result [of inp s] show ?thesis
    by (auto simp: state_machine_turn)
next
  case land
  with sm show ?thesis
    by (auto simp: state_machine_land Let_def split: if_splits)
next
  case finished
  with sm show ?thesis
    by (simp add: state_machine_done)
qed

lemma tick_step_cases:
  assumes "tick inp s = Inr (Step s1 out)"
  shows
    "(state s = TAKEOFF \<and> saved_image out = None \<and>
        (s1 = s \<or> s1 = s\<lparr>state := STABILIZE, stabilize_start_time := Some (time inp)\<rparr>))
     \<or> (state s = STABILIZE \<and> saved_image out = None \<and>
        (s1 = s \<or> s1 = begin_side (side_distances s ! 0) (gps_pos inp)
                          (s\<lparr>state := SIDE_1, side_index := 0\<rparr>)))
     \<or> (state s \<in> {SIDE_1, SIDE_2, SIDE_3, SIDE_4} \<and>
        (\<exists>dist s0. on_progress dist s = Inr (s0, saved_image out) \<and> s1 = complete_side dist s0))
     \<or> (state s \<in> {TURN_1, TURN_2, TURN_3} \<and> saved_image out = None \<and>
        (s1 = s \<or> (\<exists>k side. (state s, k, side) \<in> {(TURN_1, 1, SIDE_2), (TURN_2, 2, SIDE_3), (TURN_3, 3, SIDE_4)} \<and>
                 s1 = begin_side (side_distances s ! k) (gps_pos inp) (s\<lparr>side_index := k, state := side\<rparr>))))
     \<or> (state s = LAND \<and> saved_image out = None \<and>
        (s1 = s\<lparr>target_altitude := max 0 (target_altitude s - 0.005)\<rparr> \<or>
         s1 = s\<lparr>target_altitude := max 0 (target_altitude s - 0.005), state := DONE\<rparr>))"
proof -
  from assms obtain d where "state_machine inp s = Inr (Continue s1 d (saved_image out))"
    by (auto simp: tick_def Let_def split: sum.splits nav_result.splits)
  then show ?thesis
    by (rule state_machine_continue_cases)
qed

lemma tick_exit:
  "tick inp s = Inr (Exit s1 out) \<longleftrightarrow>
     state s = DONE \<and> s1 = s \<and>
     out = \<lparr>camera_roll = - 0.115 * roll_velocity inp,
            camera_pitch = - 0.1 * pitch_velocity inp + CAMERA_TILT,
            motor_velocities = (0, 0, 0, 0), saved_image = None\<rparr>"
proof
  assume "tick inp s = Inr (Exit s1 out)"
  then have "state_machine inp s = Inr (Break s1) \<and>
     out = \<lparr>camera_roll = - 0.115 * roll_velocity inp,
            camera_pitch = - 0.1 * pitch_velocity inp + CAMERA_TILT,
            motor_velocities = (0, 0, 0, 0), saved_image = None\<rparr>"
    by (auto simp: tick_def Let_def split: sum.splits nav_result.splits)
  then show "state s = DONE \<and> s1 = s \<and>
     out = \<lparr>camera_roll = - 0.115 * roll_velocity inp,
            camera_pitch = - 0.1 * pitch_velocity inp + CAMERA_TILT,
            motor_velocities = (0, 0, 0, 0), saved_image = None\<rparr>"
    using state_machine_break [of inp s s1] by simp
next
  assume "state s = DONE \<and> s1 = s \<and>
     out = \<lparr>camera_roll = - 0.115 * roll_velocity inp,
            camera_pitch = - 0.1 * pitch_velocity inp + CAMERA_TILT,
            motor_velocities = (0, 0, 0, 0), saved_image = None\<rparr>"
  then show "tick inp s = Inr (Exit s1 out)"
    by (simp add: tick_def Let_def state_machine_done)
qed

lemma invariant_initial: "loop_invariant (initial cfg y0)"
  by (simp add: loop_invariant_def initial_def startup_def)

lemma tick_step_elim [consumes 1, case_names stay takeoff stabilized side turned land landed]:
  assumes "tick inp s = Inr (Step s1 out)"
  obtains "s1 = s" "saved_image out = None"
      "state s \<in> {TAKEOFF, STABILIZE, TURN_1, TURN_2, TURN_3}"
  | "state s = TAKEOFF" "saved_image out = None"
      "s1 = s\<lparr>state := STABILIZE, stabilize_start_time := Some (time inp)\<rparr>"
  | "state s = STABILIZE" "saved_image out = None"
      "s1 = begin_side (side_distances s ! 0) (gps_pos inp) (s\<lparr>state := SIDE_1, side_index := 0\<rparr>)"
  | dist s0 where "state s \<in> {SIDE_1, SIDE_2, SIDE_3, SIDE_4}"
      "on_progress dist s = Inr (s0, saved_image out)" "s1 = complete_side dist s0"
  | k side where "(state s, k, side) \<in> {(TURN_1, 1, SIDE_2), (TURN_2, 2, SIDE_3), (TURN_3, 3, SIDE_4)}"
      "saved_image out = None"
      "s1 = begin_side (side_distances s ! k) (gps_pos inp) (s\<lparr>side_index := k, state := side\<rparr>)"
  | "state s = LAND" "saved_image out = None"
      "s1 = s\<lparr>target_altitude := max 0 (target_altitude s - 0.005)\<rparr>"
  | "state s = LAND" "saved_image out = None"
      "s1 = s\<lparr>target_altitude := max 0 (target_altitude s - 0.005), state := DONE\<rparr>"
  using tick_step_cases [OF assms] by (elim disjE conjE exE) blast+

lemma on_progress_bound:
  assumes "on_progress d s = Inr (s1, fired)" "images_taken_this_side s \<le> IMAGES_PER_SIDE"
  shows "images_taken_this_side s1 \<le> IMAGES_PER_SIDE"
  using assms by (auto simp: on_progress_def split: if_splits sum.splits)

lemma invariant_tick:
  assumes inv: "loop_invariant s" and step: "tick inp s = Inr (Step s1 out)"
  shows "loop_invariant s1"
  using step
proof (cases rule: tick_step_elim)
  case stay
  with inv show ?thesis by simp
next
  case takeoff
  with inv show ?thesis by (simp add: loop_invariant_def)
next
  case stabilized
  with inv show ?thesis
    by (simp add: loop_invariant_def begin_side_fields begin_side_length)
next
  case (side dist s0)
  from side(1) have "state s \<notin> {TAKEOFF, STABILIZE}" by auto
  moreover from side(1) on_progress_fields(1) [OF side(2)]
  have "state (complete_side dist s0) \<notin> {TAKEOFF, STABILIZE}"
    by (intro complete_side_state) simp
  ultimately show ?thesis
    using inv side(3) on_progress_fields [OF side(2)] on_progress_bound [OF side(2)]
    by (simp add: loop_invariant_def complete_side_fields)
next
  case (turned k side)
  with inv show ?thesis
    by (auto simp: loop_invariant_def begin_side_fields begin_side_length)
next
  case land
  with inv show ?thesis by (simp add: loop_invariant_def)
next
  case landed
  with inv show ?thesis by (simp add: loop_invariant_def)
qed

lemma tick_no_error:
  assumes inv: "loop_invariant s"
  shows "tick inp s \<noteq> Inl e"
proof -
  have "state_machine inp s \<noteq> Inl e"
  proof (cases s rule: phase_kinds)
    case takeoff
    then show ?thesis by (simp add: state_machine_takeoff)
  next
    case stabilize
    with inv show ?thesis
      by (auto simp: state_machine_stabilize loop_invariant_def subscript_def split: if_splits)
  next
    case side
    with inv have pos: "state_start_pos s \<noteq> None"
      and len: "length (capture_distances s) = IMAGES_PER_SIDE"
      by (auto simp: loop_invariant_def)
    from len have "on_progress d s \<noteq> Inl e'" for d e'
      by (intro on_progress_no_error) simp
    with side pos show ?thesis
      by (auto simp: state_machine_side side_step_def Let_def split: prod.splits sum.splits)
  next
    case turn
    with inv show ?thesis
      by (auto simp: state_machine_turn turn_step_def Let_def loop_invariant_def subscript_def)
  next
    case land
    then show ?thesis by (simp add: state_machine_land Let_def)
  next
    case finished
    then show ?thesis by (simp add: state_machine_done)
  qed
  then show ?thesis
    by (auto simp: tick_def Let_def split: sum.splits nav_result.splits)
qed

lemma invariant_run:
  assumes "loop_invariant s"
  shows "run inps s \<noteq> Inl e \<and> (\<forall>s'. run inps s = Inr s' \<longrightarrow> loop_invariant s')"
  using assms
proof (induction inps arbitrary: s)
  case Nil
  then show ?case by simp
next
  case (Cons inp inps)
  show ?case
  proof (cases "tick inp s")
    case (Inl e')
    with tick_no_error [OF Cons.prems] show ?thesis by simp
  next
    case (Inr r)
    show ?thesis
    proof (cases r)
      case (Exit s1 out)
      with Inr have "s1 = s" by (simp add: tick_exit)
      with Inr Exit Cons.prems show ?thesis by simp
    next
      case (Step s1 out)
      with Inr have "loop_invariant s1"
        using invariant_tick [OF Cons.prems] by simp
      from Cons.IH [OF this] Inr Step show ?thesis by simp
    qed
  qed
qed

subsection \<open>Phase order and heading along a run\<close>

lemma complete_side_phase:
  assumes "state s \<in> {SIDE_1, SIDE_2, SIDE_3, SIDE_4}"
  shows "state (complete_side d s) = state s \<or>
     (state s, state (complete_side d s)) \<in>
        {(SIDE_1, TURN_1), (SIDE_2, TURN_2), (SIDE_3, TURN_3), (SIDE_4, LAND)}"
  using assms by (auto simp: complete_side_def)

lemma complete_side_yaw:
  assumes "state s \<in> {SIDE_1, SIDE_2, SIDE_3, SIDE_4}"
  shows "accumulated_yaw (complete_side d s) =
     (if state s \<in> {SIDE_1, SIDE_2, SIDE_3} \<and> state (complete_side d s) \<noteq> state s
      then accumulated_yaw s + pi / 2 else accumulated_yaw s)"
  using assms by (auto simp: complete_side_def)

lemma adjacent_phases:
  "set (zip flight_path (tl flight_path)) =
     {(TAKEOFF, STABILIZE), (STABILIZE, SIDE_1), (SIDE_1, TURN_1), (TURN_1, SIDE_2),
      (SIDE_2, TURN_2), (TURN_2, SIDE_3), (SIDE_3, TURN_3), (TURN_3, SIDE_4),
      (SIDE_4, LAND), (LAND, DONE)}"
  by (auto simp: flight_path_def)

lemma tick_phase_successor:
  assumes step: "tick inp s = Inr (Step s1 out)"
  shows "state s \<noteq> DONE \<and>
     (state s1 = state s \<or> (state s, state s1) \<in> set (zip flight_path (tl flight_path)))"
  using step
proof (cases rule: tick_step_elim)
  case stay
  from stay(3) have "state s \<noteq> DONE" by auto
  with stay(1) show ?thesis by simp
next
  case takeoff
  then show ?thesis by (simp add: adjacent_phases)
next
  case stabilized
  then show ?thesis by (simp add: adjacent_phases begin_side_fields)
next
  case (side dd s0)
  have same: "state s0 = state s"
    using on_progress_fields(1) [OF side(2)] .
  with side(1) have sides: "state s0 \<in> {SIDE_1, SIDE_2, SIDE_3, SIDE_4}" by simp
  from side(1) have nd: "state s \<noteq> DONE" by auto
  from complete_side_phase [OF sides, of dd]
  have "state s1 = state s \<or>
     (state s, state s1) \<in> {(SIDE_1, TURN_1), (SIDE_2, TURN_2), (SIDE_3, TURN_3), (SIDE_4, LAND)}"
    by (simp only: side(3) same)
  then have "state s1 = state s \<or> (state s, state s1) \<in> set (zip flight_path (tl flight_path))"
    unfolding adjacent_phases by blast
  with nd show ?thesis by simp
next
  case (turned k side)
  from turned(1) have "state s \<noteq> DONE" by auto
  moreover from turned(1) have "(state s, side) \<in> set (zip flight_path (tl flight_path))"
    unfolding adjacent_phases by auto
  ultimately show ?thesis
    using turned(3) by (simp add: begin_side_fields)
next
  case land
  then show ?thesis by simp
next
  case landed
  then show ?thesis by (simp add: adjacent_phases)
qed

lemma path_from_head:
  "\<exists>rest. dropWhile (\<lambda>q. q \<noteq> p) flight_path = p # rest"
  by (cases p) (simp_all add: flight_path_def)

lemma path_from_step:
  assumes "(p, q) \<in> set (zip flight_path (tl flight_path))"
  shows "p \<noteq> q \<and> dropWhile (\<lambda>r. r \<noteq> p) flight_path = p # dropWhile (\<lambda>r. r \<noteq> q) flight_path"
  using assms unfolding adjacent_phases by (auto simp: flight_path_def)

lemma phases_head: "\<exists>rest. phases inps s = state s # rest"
  by (cases inps) (auto split: sum.splits tick_result.splits)

lemma phases_follow_path:
  "prefix (remdups_adj (phases inps s)) (dropWhile (\<lambda>q. q \<noteq> state s) flight_path)"
proof (induction inps arbitrary: s)
  case Nil
  from path_from_head [of "state s"] show ?case by auto
next
  case (Cons inp inps)
  show ?case
  proof (cases "\<exists>s1 out. tick inp s = Inr (Step s1 out)")
    case False
    then have "phases (inp # inps) s = [state s]"
      by (auto split: sum.splits tick_result.splits)
    with path_from_head [of "state s"] show ?thesis by auto
  next
    case True
    then obtain s1 out where step: "tick inp s = Inr (Step s1 out)" by blast
    then have ph: "phases (inp # inps) s = state s # phases inps s1" by simp
    obtain rest where rest: "phases inps s1 = state s1 # rest"
      using phases_head by blast
    from Cons.IH [of s1] rest
    have ih: "prefix (remdups_adj (state s1 # rest)) (dropWhile (\<lambda>q. q \<noteq> state s1) flight_path)"
      by simp
    from tick_phase_successor [OF step]
    consider "state s1 = state s"
      | "(state s, state s1) \<in> set (zip flight_path (tl flight_path))" by blast
    then show ?thesis
    proof cases
      case 1
      with ih ph rest show ?thesis by simp
    next
      case 2
      from path_from_step [OF 2] ih ph rest show ?thesis by simp
    qed
  qed
qed

lemma tick_yaw:
  assumes step: "tick inp s = Inr (Step s1 out)"
  shows "accumulated_yaw s1 =
     (if state s \<in> {SIDE_1, SIDE_2, SIDE_3} \<and> state s1 \<noteq> state s
      then accumulated_yaw s + pi / 2 else accumulated_yaw s)"
  using step
proof (cases rule: tick_step_elim)
  case stay
  then show ?thesis by simp
next
  case takeoff
  then show ?thesis by simp
next
  case stabilized
  then show ?thesis by (simp add: begin_side_fields)
next
  case (side dd s0)
  from side(1) on_progress_fields [OF side(2)]
  have "state s0 \<in> {SIDE_1, SIDE_2, SIDE_3, SIDE_4}" "state s0 = state s"
    "accumulated_yaw s0 = accumulated_yaw s" by simp_all
  with complete_side_yaw [of s0 dd] side(3) show ?thesis by simp
next
  case (turned k side)
  then show ?thesis by (auto simp: begin_side_fields)
next
  case land
  then show ?thesis by simp
next
  case landed
  then show ?thesis by simp
qed

lemma run_yaw_mono: "run inps s = Inr s' \<Longrightarrow> accumulated_yaw s \<le> accumulated_yaw s'"
proof (induction inps arbitrary: s)
  case Nil
  then show ?case by simp
next
  case (Cons inp inps)
  show ?case
  proof (cases "tick inp s")
    case (Inl e)
    with Cons.prems show ?thesis by simp
  next
    case (Inr r)
    show ?thesis
    proof (cases r)
      case (Exit s1 out)
      with Inr have "s1 = s" by (simp add: tick_exit)
      with Inr Exit Cons.prems show ?thesis by simp
    next
      case (Step s1 out)
      with Inr have step: "tick inp s = Inr (Step s1 out)" by simp
      have "accumulated_yaw s \<le> accumulated_yaw s1"
        using tick_yaw [OF step] by simp
      moreover have "accumulated_yaw s1 \<le> accumulated_yaw s'"
        using Cons.IH [of s1] Cons.prems step by simp
      ultimately show ?thesis by simp
    qed
  qed
qed

lemma tick_image_counter:
  assumes step: "tick inp s = Inr (Step s1 out)"
  shows "(saved_image out = None \<and> image_counter s1 = image_counter s) \<or>
         (saved_image out = Some (image_counter s1) \<and> image_counter s1 = image_counter s + 1 \<and>
          state s \<in> {SIDE_1, SIDE_2, SIDE_3, SIDE_4})"
  using step
proof (cases rule: tick_step_elim)
  case (side dd s0)
  from on_progress_fields(9,10) [OF side(2)] side(1,3) show ?thesis
    by (auto simp: complete_side_fields split: option.splits)
next
  case (turned k side)
  then show ?thesis by (auto simp: begin_side_fields)
qed (simp_all add: begin_side_fields)

lemma tick_enter_side:
  assumes step: "tick inp s = Inr (Step s1 out)"
    and before: "state s \<notin> {SIDE_1, SIDE_2, SIDE_3, SIDE_4}"
    and after: "state s1 \<in> {SIDE_1, SIDE_2, SIDE_3, SIDE_4}"
  shows "images_taken_this_side s1 = 0 \<and>
     capture_distances s1 =
       [current_side_distance s1 * 1 / 4, current_side_distance s1 * 2 / 4,
        current_side_distance s1 * 3 / 4, current_side_distance s1 * 4 / 4]"
  using step
proof (cases rule: tick_step_elim)
  case stay
  with before after show ?thesis by simp
next
  case takeoff
  with after show ?thesis by simp
next
  case stabilized
  then show ?thesis by (simp add: begin_side_thresholds begin_side_fields)
next
  case (side dd s0)
  with before show ?thesis by simp
next
  case (turned k side)
  then show ?thesis by (simp add: begin_side_thresholds begin_side_fields)
next
  case land
  with after show ?thesis by simp
next
  case landed
  with after show ?thesis by simp
qed

subsection \<open>Sequences of progress reports\<close>

lemma on_progress_char:
  assumes "length (capture_distances t) = 4"
  shows "on_progress d t =
     Inr (if images_taken_this_side t < 4 \<and> d \<ge> capture_distances t ! images_taken_this_side t
          then (t\<lparr>image_counter := image_counter t + 1,
                  images_taken_this_side := images_taken_this_side t + 1\<rparr>,
                Some (image_counter t + 1))
          else (t, None))"
  using assms by (simp add: on_progress_def subscript_def IMAGES_PER_SIDE_def)

lemma upt_shift: "[c + 1 ..< c + 1 + Suc n] = (c + 1) # [c + 1 + 1 ..< c + 1 + 1 + n]"
  by (subst upt_conv_Cons) simp_all

lemma progress_reports_gen:
  assumes "length (capture_distances t) = 4" "images_taken_this_side t \<le> 4"
  shows "\<exists>t' fired. progress_reports ds t = Inr (t', fired) \<and>
      length fired = length ds \<and>
      capture_distances t' = capture_distances t \<and>
      images_taken_this_side t' \<le> 4 \<and>
      images_taken_this_side t' = images_taken_this_side t + length (sequence_numbers fired) \<and>
      image_counter t' = image_counter t + length (sequence_numbers fired) \<and>
      sequence_numbers fired = [image_counter t + 1 ..< image_counter t + 1 + length (sequence_numbers fired)]"
  using assms
proof (induction ds arbitrary: t)
  case Nil
  then show ?case by simp
next
  case (Cons d ds)
  let ?fire = "images_taken_this_side t < 4 \<and> d \<ge> capture_distances t ! images_taken_this_side t"
  show ?case
  proof (cases ?fire)
    case True
    let ?t1 = "t\<lparr>image_counter := image_counter t + 1,
                  images_taken_this_side := images_taken_this_side t + 1\<rparr>"
    have op: "on_progress d t = Inr (?t1, Some (image_counter t + 1))"
      using True Cons.prems(1) by (simp add: on_progress_char)
    have "length (capture_distances ?t1) = 4" "images_taken_this_side ?t1 \<le> 4"
      using True Cons.prems by simp_all
    from Cons.IH [OF this] obtain t' fired where
      r: "progress_reports ds ?t1 = Inr (t', fired)" and
      l: "length fired = length ds" and
      c: "capture_distances t' = capture_distances ?t1" and
      b: "images_taken_this_side t' \<le> 4" and
      n: "images_taken_this_side t' = images_taken_this_side ?t1 + length (sequence_numbers fired)" and
      k: "image_counter t' = image_counter ?t1 + length (sequence_numbers fired)" and
      q: "sequence_numbers fired = [image_counter ?t1 + 1 ..< image_counter ?t1 + 1 + length (sequence_numbers fired)]"
      by blast
    have "progress_reports (d # ds) t = Inr (t', Some (image_counter t + 1) # fired)"
      using op r by simp
    moreover have "sequence_numbers (Some (image_counter t + 1) # fired) =
       [image_counter t + 1 ..< image_counter t + 1 + length (sequence_numbers (Some (image_counter t + 1) # fired))]"
      using q upt_shift [of "image_counter t" "length (sequence_numbers fired)"] by simp
    ultimately show ?thesis
      using l c b n k by (simp del: upt_Suc)
  next
    case False
    have op: "on_progress d t = Inr (t, None)"
      using False Cons.prems(1) by (simp add: on_progress_char)
    from Cons.IH [OF Cons.prems] obtain t' fired where
      r: "progress_reports ds t = Inr (t', fired)" and
      rest: "length fired = length ds"
        "capture_distances t' = capture_distances t"
        "images_taken_this_side t' \<le> 4"
        "images_taken_this_side t' = images_taken_this_side t + length (sequence_numbers fired)"
        "image_counter t' = image_counter t + length (sequence_numbers fired)"
        "sequence_numbers fired = [image_counter t + 1 ..< image_counter t + 1 + length (sequence_numbers fired)]"
      by blast
    have "progress_reports (d # ds) t = Inr (t', None # fired)"
      using op r by simp
    then show ?thesis
      using rest by (simp del: upt_Suc)
  qed
qed


lemma progress_reports_begin_side:
  "\<exists>t' fired. progress_reports ds (begin_side L g s) = Inr (t', fired) \<and>
      length fired = length ds \<and>
      capture_distances t' = capture_distances (begin_side L g s) \<and>
      images_taken_this_side t' = length (sequence_numbers fired) \<and>
      images_taken_this_side t' \<le> 4 \<and>
      image_counter t' = image_counter s + length (sequence_numbers fired) \<and>
      sequence_numbers fired = [image_counter s + 1 ..< image_counter s + 1 + length (sequence_numbers fired)]"
  using progress_reports_gen [of "begin_side L g s" ds]
  by (simp add: begin_side_thresholds begin_side_fields del: upt_Suc) blast

lemma scenario:
  "progress_reports [4.9, 5.0, 5.1, 9.9, 10.0, 14.9, 15.0, 19.9, 20.0] (begin_side 20 g s) =
     Inr ((begin_side 20 g s)\<lparr>image_counter := image_counter s + 4, images_taken_this_side := 4\<rparr>,
          [None, Some (image_counter s + 1), None, None, Some (image_counter s + 2), None,
           Some (image_counter s + 3), None, Some (image_counter s + 4)])"
  by (simp add: on_progress_char begin_side_thresholds begin_side_fields)

subsection \<open>The example flight, tick by tick\<close>

lemma normalize_angle_two_pi: "normalize_angle (2 * pi) = 0"
proof -
  have "subtract_turns (2 * pi) = subtract_turns 0"
    by (subst subtract_turns.simps) simp
  also have "\<dots> = 0"
    by (subst subtract_turns.simps) simp
  finally show ?thesis
    by (simp add: normalize_angle_def add_turns.simps)
qed

lemma sin_three_half_pi: "sin (3 * pi / 2) = - 1"
proof -
  have "3 * pi / 2 = 3 / 2 * pi" by simp
  then show ?thesis by (simp only: sin_3over2_pi)
qed

lemma cos_three_half_pi: "cos (3 * pi / 2) = 0"
proof -
  have "3 * pi / 2 = 3 / 2 * pi" by simp
  then show ?thesis by (simp only: cos_3over2_pi)
qed

lemma upt_0_4: "[0..<4] = [0, 1, 2, 3]"
  by (simp add: eval_nat_numeral upt_conv_Cons)

lemmas step_defs = tick_def state_machine_def side_step_def turn_step_def complete_side_def
  on_progress_def subscript_def begin_side_def decompose_displacement_def altitude_def
  reading_def Let_def STABILIZE_TIME_def ANGLE_TOLERANCE_def IMAGES_PER_SIDE_def upt_0_4

lemma flight_3:
  "run (take 3 example_flight) (initial (load_config None) 0) =
     Inr \<lparr>state = TURN_1, state_start_pos = Some (0, 0, 4), target_yaw = pi / 2,
          current_side_distance = 20, side_distances = [20, 10, 20, 10], side_index = 0,
          accumulated_yaw = pi / 2, stabilize_start_time = Some 2,
          capture_distances = [5, 10, 15, 20], images_taken_this_side = 1,
          image_counter = 1, target_altitude = 4\<rparr>"
  by (simp add: example_flight_def initial_def startup_def load_config_def step_defs
      normalize_angle_fixed)

lemma flight_8:
  "run (take 8 example_flight) (initial (load_config None) 0) =
     Inr \<lparr>state = SIDE_4, state_start_pos = Some (10, 0, 4), target_yaw = 3 * pi / 2,
          current_side_distance = 10, side_distances = [20, 10, 20, 10], side_index = 3,
          accumulated_yaw = 3 * pi / 2, stabilize_start_time = Some 2,
          capture_distances = [5 / 2, 5, 15 / 2, 10], images_taken_this_side = 0,
          image_counter = 3, target_altitude = 4\<rparr>"
  by (simp add: example_flight_def initial_def startup_def load_config_def step_defs
      normalize_angle_fixed normalize_angle_two_pi sin_three_half_pi cos_three_half_pi)

lemma flight_9:
  "run (take 9 example_flight) (initial (load_config None) 0) =
     Inr \<lparr>state = LAND, state_start_pos = Some (10, 0, 4), target_yaw = 3 * pi / 2,
          current_side_distance = 10, side_distances = [20, 10, 20, 10], side_index = 3,
          accumulated_yaw = 3 * pi / 2, stabilize_start_time = Some 2,
          capture_distances = [5 / 2, 5, 15 / 2, 10], images_taken_this_side = 1,
          image_counter = 4, target_altitude = 4\<rparr>"
  by (simp add: example_flight_def initial_def startup_def load_config_def step_defs
      normalize_angle_fixed normalize_angle_two_pi sin_three_half_pi cos_three_half_pi)

lemmas flight_defs = example_flight_def initial_def startup_def load_config_def step_defs
  normalize_angle_fixed normalize_angle_two_pi sin_three_half_pi cos_three_half_pi

lemma flight_1:
  "run (take 1 example_flight) (initial (load_config None) 0) =
     Inr ((initial (load_config None) 0)\<lparr>state := STABILIZE, stabilize_start_time := Some 2\<rparr>)"
  by (simp add: flight_defs)

lemma tick_2:
  "tick (reading 6 0 (0, 0, 4))
        ((initial (load_config None) 0)\<lparr>state := STABILIZE, stabilize_start_time := Some 2\<rparr>) =
     Inr (Step side_1_start
            \<lparr>camera_roll = 0, camera_pitch = 0.3,
             motor_velocities = motor_control (reading 6 0 (0, 0, 4)) 4 no_disturbance,
             saved_image = None\<rparr>)"
  by (simp add: flight_defs side_1_start_def CAMERA_TILT_def)

lemma flight_2: "run (take 2 example_flight) (initial (load_config None) 0) = Inr side_1_start"
  by (simp add: flight_defs side_1_start_def)

lemma tick_3:
  "tick (reading 30 0 (0, - 20, 4)) side_1_start =
     Inr (Step side_1_end
            \<lparr>camera_roll = 0, camera_pitch = 0.3,
             motor_velocities = motor_control (reading 30 0 (0, - 20, 4)) 4
               \<lparr>roll_disturbance = - 1, pitch_disturbance = 0, yaw_disturbance = 0\<rparr>,
             saved_image = Some 1\<rparr>)"
  by (simp add: flight_defs side_1_start_def side_1_end_def CAMERA_TILT_def STRAFE_SPEED_def
      K_FORWARD_CORRECTION_def)

lemma flight_10: "run (take 10 example_flight) (initial (load_config None) 0) = Inr landed"
  by (simp add: flight_defs landed_def)

lemma flight_11: "run example_flight (initial (load_config None) 0) = Inr landed"
  by (simp add: flight_defs landed_def)

lemma tick_11:
  "tick (reading 131 (- pi / 2) (0, 0, 0.2)) landed =
     Inr (Exit landed \<lparr>camera_roll = 0, camera_pitch = 0.3,
                       motor_velocities = (0, 0, 0, 0), saved_image = None\<rparr>)"
  by (simp add: tick_exit landed_def reading_def CAMERA_TILT_def)

lemma phases_example:
  "phases example_flight (initial (load_config None) 0) = flight_path"
  by (simp add: flight_defs flight_path_def)

section \<open>The claims\<close>

subsection \<open>C1: capture scheduling\<close>

text \<open>
  C1: \<^verbatim>\<open>begin_side(L)\<close> sets the capture thresholds to \<open>[L\<cdot>1/4, L\<cdot>2/4, L\<cdot>3/4, L\<cdot>4/4]\<close>,
  resets the per-side count to 0 and leaves the image counter alone. With four thresholds in
  place, a progress report saves an image exactly when fewer than 4 were saved on this side
  and the distance has reached the next unfired threshold; it then moves on to the next
  threshold, so no threshold fires twice, and any sequence of reports after \<^verbatim>\<open>begin_side\<close>
  saves at most 4 images, numbered consecutively upwards from the counter. Every tick of
  the main loop either leaves the counter alone or, in a side phase, saves the image with
  the next number. After \<^verbatim>\<open>begin_side(20)\<close> the reports 4.9, 5.0, 5.1, 9.9, 10.0, 14.9,
  15.0, 19.9, 20.0 save exactly four images, at 5.0, 10.0, 15.0 and 20.0.
\<close>

theorem capture_scheduling:
  "capture_distances (begin_side L g s) = [L * 1 / 4, L * 2 / 4, L * 3 / 4, L * 4 / 4] \<and>
   images_taken_this_side (begin_side L g s) = 0 \<and>
   image_counter (begin_side L g s) = image_counter s \<and>
   (length (capture_distances t) = 4 \<longrightarrow>
      on_progress d t =
        Inr (if images_taken_this_side t < 4 \<and> d \<ge> capture_distances t ! images_taken_this_side t
             then (t\<lparr>image_counter := image_counter t + 1,
                     images_taken_this_side := images_taken_this_side t + 1\<rparr>,
                   Some (image_counter t + 1))
             else (t, None))) \<and>
   (\<exists>t' fired. progress_reports ds (begin_side L g s) = Inr (t', fired) \<and>
      length fired = length ds \<and>
      capture_distances t' = capture_distances (begin_side L g s) \<and>
      images_taken_this_side t' = length (sequence_numbers fired) \<and>
      images_taken_this_side t' \<le> 4 \<and>
      image_counter t' = image_counter s + length (sequence_numbers fired) \<and>
      sequence_numbers fired =
        [image_counter s + 1 ..< image_counter s + 1 + length (sequence_numbers fired)]) \<and>
   (tick inp u = Inr (Step u1 out) \<longrightarrow>
      (saved_image out = None \<and> image_counter u1 = image_counter u) \<or>
      (saved_image out = Some (image_counter u1) \<and> image_counter u1 = image_counter u + 1 \<and>
       state u \<in> {SIDE_1, SIDE_2, SIDE_3, SIDE_4})) \<and>
   progress_reports [4.9, 5.0, 5.1, 9.9, 10.0, 14.9, 15.0, 19.9, 20.0] (begin_side 20 g s) =
     Inr ((begin_side 20 g s)\<lparr>image_counter := image_counter s + 4, images_taken_this_side := 4\<rparr>,
          [None, Some (image_counter s + 1), None, None, Some (image_counter s + 2), None,
           Some (image_counter s + 3), None, Some (image_counter s + 4)])"
  using begin_side_thresholds [of L g s] begin_side_fields(1,2) [of L g s]
    on_progress_char [of t d] progress_reports_begin_side [of ds L g s]
    tick_image_counter [of inp u u1 out] scenario [of g s]
  by blast

text \<open>
  C1, witness: the state in which side 1 of the example flight begins has four thresholds,
  a report of 5 m saves image 1 there, and the tick that completes side 1 saves image 1.
\<close>

theorem capture_scheduling_witness:
  "length (capture_distances side_1_start) = 4 \<and>
   on_progress 5 side_1_start =
     Inr (side_1_start\<lparr>image_counter := 1, images_taken_this_side := 1\<rparr>, Some 1) \<and>
   tick (reading 30 0 (0, - 20, 4)) side_1_start =
     Inr (Step side_1_end
            \<lparr>camera_roll = 0, camera_pitch = 0.3,
             motor_velocities = motor_control (reading 30 0 (0, - 20, 4)) 4
               \<lparr>roll_disturbance = - 1, pitch_disturbance = 0, yaw_disturbance = 0\<rparr>,
             saved_image = Some 1\<rparr>) \<and>
   image_counter side_1_end = image_counter side_1_start + 1"
proof -
  have len: "length (capture_distances side_1_start) = 4"
    by (simp add: side_1_start_def)
  note inst = capture_scheduling [where t = side_1_start and d = 5 and u = side_1_start
      and inp = "reading 30 0 (0, - 20, 4)" and ?u1.0 = side_1_end
      and out = "\<lparr>camera_roll = 0, camera_pitch = 0.3,
             motor_velocities = motor_control (reading 30 0 (0, - 20, 4)) 4
               \<lparr>roll_disturbance = - 1, pitch_disturbance = 0, yaw_disturbance = 0\<rparr>,
             saved_image = Some 1\<rparr>"
      and L = 20 and g = "(0, 0, 4)" and s = side_1_start and ds = "[]"]
  from inst len have "on_progress 5 side_1_start =
     Inr (if images_taken_this_side side_1_start < 4 \<and>
             5 \<ge> capture_distances side_1_start ! images_taken_this_side side_1_start
          then (side_1_start\<lparr>image_counter := image_counter side_1_start + 1,
                  images_taken_this_side := images_taken_this_side side_1_start + 1\<rparr>,
                Some (image_counter side_1_start + 1))
          else (side_1_start, None))"
    by blast
  then have "on_progress 5 side_1_start =
     Inr (side_1_start\<lparr>image_counter := 1, images_taken_this_side := 1\<rparr>, Some 1)"
    by (simp add: side_1_start_def)
  moreover from inst tick_3 have "image_counter side_1_end = image_counter side_1_start + 1"
    by simp
  ultimately show ?thesis
    using len tick_3 by simp
qed

subsection \<open>C2: the order of the flight phases\<close>

text \<open>
  C2: the loop starts in \<^verbatim>\<open>TAKEOFF\<close>; a tick that stays in the loop keeps the phase or
  moves it to the next one in the chain \<^verbatim>\<open>TAKEOFF, STABILIZE, SIDE_1, TURN_1, SIDE_2,
  TURN_2, SIDE_3, TURN_3, SIDE_4, LAND, DONE\<close>; a tick leaves the loop exactly in
  \<^verbatim>\<open>DONE\<close>, without changing the state; so the phases visited by any run, with
  repetitions dropped, are an initial segment of the chain: none skipped, none revisited.
\<close>

theorem flight_phase_order:
  "state (initial cfg y0) = TAKEOFF \<and>
   (tick inp s = Inr (Step s1 out) \<longrightarrow>
      state s \<noteq> DONE \<and>
      (state s1 = state s \<or> (state s, state s1) \<in> set (zip flight_path (tl flight_path)))) \<and>
   (tick inp2 s2 = Inr (Exit s3 out2) \<longrightarrow> state s2 = DONE \<and> s3 = s2) \<and>
   (state s2 = DONE \<longrightarrow> (\<exists>out3. tick inp2 s2 = Inr (Exit s2 out3))) \<and>
   prefix (remdups_adj (phases inps (initial cfg y0))) flight_path"
proof -
  have start: "state (initial cfg y0) = TAKEOFF"
    by (simp add: initial_def startup_def)
  have "prefix (remdups_adj (phases inps (initial cfg y0)))
          (dropWhile (\<lambda>q. q \<noteq> state (initial cfg y0)) flight_path)"
    by (rule phases_follow_path)
  then have path: "prefix (remdups_adj (phases inps (initial cfg y0))) flight_path"
    by (simp add: start flight_path_def)
  have exit1: "tick inp2 s2 = Inr (Exit s3 out2) \<longrightarrow> state s2 = DONE \<and> s3 = s2"
    by (simp add: tick_exit)
  have exit2: "state s2 = DONE \<longrightarrow> (\<exists>out3. tick inp2 s2 = Inr (Exit s2 out3))"
    by (simp add: tick_exit)
  from start path exit1 exit2 tick_phase_successor [of inp s s1 out] show ?thesis
    by blast
qed

text \<open>
  C2, witness: the tick completing side 1 of the example flight moves from \<^verbatim>\<open>SIDE_1\<close> to
  \<^verbatim>\<open>TURN_1\<close>, the last tick leaves the loop in \<^verbatim>\<open>DONE\<close>, and the flight visits
  the whole chain.
\<close>

theorem flight_phase_order_witness:
  "tick (reading 30 0 (0, - 20, 4)) side_1_start =
     Inr (Step side_1_end
            \<lparr>camera_roll = 0, camera_pitch = 0.3,
             motor_velocities = motor_control (reading 30 0 (0, - 20, 4)) 4
               \<lparr>roll_disturbance = - 1, pitch_disturbance = 0, yaw_disturbance = 0\<rparr>,
             saved_image = Some 1\<rparr>) \<and>
   (state side_1_start, state side_1_end) \<in> set (zip flight_path (tl flight_path)) \<and>
   state landed = DONE \<and>
   tick (reading 131 (- pi / 2) (0, 0, 0.2)) landed =
     Inr (Exit landed \<lparr>camera_roll = 0, camera_pitch = 0.3,
                       motor_velocities = (0, 0, 0, 0), saved_image = None\<rparr>) \<and>
   prefix (remdups_adj (phases example_flight (initial (load_config None) 0))) flight_path \<and>
   remdups_adj (phases example_flight (initial (load_config None) 0)) = flight_path"
proof -
  note inst = flight_phase_order [where cfg = "load_config None" and ?y0.0 = 0
      and inps = example_flight
      and inp = "reading 30 0 (0, - 20, 4)" and s = side_1_start and ?s1.0 = side_1_end
      and out = "\<lparr>camera_roll = 0, camera_pitch = 0.3,
             motor_velocities = motor_control (reading 30 0 (0, - 20, 4)) 4
               \<lparr>roll_disturbance = - 1, pitch_disturbance = 0, yaw_disturbance = 0\<rparr>,
             saved_image = Some 1\<rparr>"
      and ?inp2.0 = "reading 131 (- pi / 2) (0, 0, 0.2)" and ?s2.0 = landed and ?s3.0 = landed
      and ?out2.0 = "\<lparr>camera_roll = 0, camera_pitch = 0.3,
                       motor_velocities = (0, 0, 0, 0), saved_image = None\<rparr>"]
  have ne: "state side_1_end \<noteq> state side_1_start"
    by (simp add: side_1_start_def side_1_end_def)
  from inst tick_3 ne
  have adj: "(state side_1_start, state side_1_end) \<in> set (zip flight_path (tl flight_path))"
    by blast
  have fin: "state landed = DONE"
    by (simp add: landed_def)
  from inst
  have pre: "prefix (remdups_adj (phases example_flight (initial (load_config None) 0))) flight_path"
    by blast
  have "remdups_adj (phases example_flight (initial (load_config None) 0)) = flight_path"
    by (simp add: phases_example) (simp add: flight_path_def)
  with adj fin pre tick_3 tick_11 show ?thesis
    by blast
qed

subsection \<open>C3: two progress reports with the same distance\<close>

text \<open>
  C3 (as stated): a second progress report with the same distance saves no image. This
  fails when the distance has reached two unfired thresholds: after \<^verbatim>\<open>begin_side(20)\<close>
  a report of 10 m saves image 1 (threshold 5) and a second report of 10 m saves image 2
  (threshold 10), because one report saves at most one image.
\<close>

theorem on_progress_twice_counterexample:
  "on_progress_twice 10 (begin_side 20 (0, 0, 0) (initial (load_config None) 0)) =
     Inr (Some 1, Some 2)"
  by (simp add: on_progress_twice_def on_progress_char begin_side_thresholds begin_side_fields)
     (simp add: initial_def startup_def)

text \<open>
  C3 (amended): with four thresholds in place, the second of two reports with the same
  distance saves an image exactly when the distance has reached both the next unfired
  threshold and the one after it (and fewer than 3 images had been saved on this side);
  in particular it saves none when the first report saved none.
\<close>

theorem on_progress_twice_second_capture:
  "length (capture_distances s) = 4 \<longrightarrow>
     (\<exists>first second. on_progress_twice d s = Inr (first, second) \<and>
        (first = None \<longrightarrow> second = None) \<and>
        (second \<noteq> None \<longleftrightarrow>
           images_taken_this_side s + 1 < 4 \<and>
           d \<ge> capture_distances s ! images_taken_this_side s \<and>
           d \<ge> capture_distances s ! (images_taken_this_side s + 1)))"
  by (simp add: on_progress_twice_def on_progress_char)

text \<open>
  C3, witness: when side 1 of the example flight begins, two reports of 5 m save image 1
  and then nothing, 5 m being below the second threshold.
\<close>

theorem on_progress_twice_second_capture_witness:
  "length (capture_distances side_1_start) = 4 \<and>
   on_progress_twice 5 side_1_start = Inr (Some 1, None) \<and>
   \<not> (5 \<ge> capture_distances side_1_start ! (images_taken_this_side side_1_start + 1))"
proof -
  have len: "length (capture_distances side_1_start) = 4"
    by (simp add: side_1_start_def)
  have below: "\<not> (5 \<ge> capture_distances side_1_start ! (images_taken_this_side side_1_start + 1))"
    by (simp add: side_1_start_def)
  from on_progress_twice_second_capture [of side_1_start 5] len
  obtain first second where
    res: "on_progress_twice 5 side_1_start = Inr (first, second)" and
    snd: "second \<noteq> None \<longleftrightarrow>
           images_taken_this_side side_1_start + 1 < 4 \<and>
           5 \<ge> capture_distances side_1_start ! images_taken_this_side side_1_start \<and>
           5 \<ge> capture_distances side_1_start ! (images_taken_this_side side_1_start + 1)"
    by blast
  from snd below have none: "second = None" by blast
  have "\<exists>second'. on_progress_twice 5 side_1_start = Inr (Some 1, second')"
    by (simp add: on_progress_twice_def on_progress_def subscript_def IMAGES_PER_SIDE_def
        side_1_start_def)
  with res none have "on_progress_twice 5 side_1_start = Inr (Some 1, None)"
    by auto
  with len below show ?thesis by blast
qed

subsection \<open>C4: angle normalization\<close>




subsection \<open>C5: the origin of the current side\<close>

text \<open>
  C5 (as stated): \<^verbatim>\<open>state_start_pos\<close> is defined if and only if the phase is a side
  phase. This fails after the first side: nothing clears the variable, so after take-off,
  the settle time and a completed side 1 the phase is \<^verbatim>\<open>TURN_1\<close> and
  \<^verbatim>\<open>state_start_pos\<close> still holds the origin of side 1.
\<close>

theorem side_origin_kept_after_side_counterexample:
  "map_sum id state
     (run [reading 2 0 (0, 0, 4), reading 6 0 (0, 0, 4), reading 30 0 (0, - 20, 4)]
        (initial (load_config None) 0)) = Inr TURN_1 \<and>
   map_sum id state_start_pos
     (run [reading 2 0 (0, 0, 4), reading 6 0 (0, 0, 4), reading 30 0 (0, - 20, 4)]
        (initial (load_config None) 0)) = Inr (Some (0, 0, 4))"
  using flight_3 by (simp add: example_flight_def)

text \<open>
  C5 (amended): in every state the main loop reaches, \<^verbatim>\<open>state_start_pos\<close> is
  undefined in \<^verbatim>\<open>TAKEOFF\<close> and \<^verbatim>\<open>STABILIZE\<close> and defined in every later phase: the
  side phases, and also the turn phases, \<^verbatim>\<open>LAND\<close> and \<^verbatim>\<open>DONE\<close>.
\<close>

theorem side_origin_defined_after_stabilize:
  "run inps (initial cfg y0) = Inr s \<longrightarrow>
     (state_start_pos s \<noteq> None \<longleftrightarrow> state s \<notin> {TAKEOFF, STABILIZE})"
proof
  assume "run inps (initial cfg y0) = Inr s"
  with invariant_run [OF invariant_initial [of cfg y0], of inps] have "loop_invariant s"
    by blast
  then show "state_start_pos s \<noteq> None \<longleftrightarrow> state s \<notin> {TAKEOFF, STABILIZE}"
    by (auto simp: loop_invariant_def)
qed

text \<open>
  C5, witness: the example flight ends in \<^verbatim>\<open>DONE\<close> with the origin of side 4 still
  recorded.
\<close>

theorem side_origin_defined_after_stabilize_witness:
  "run (take 10 example_flight) (initial (load_config None) 0) = Inr landed \<and>
   state landed = DONE \<and> state_start_pos landed \<noteq> None"
proof -
  have "state landed \<notin> {TAKEOFF, STABILIZE}"
    by (simp add: landed_def)
  with side_origin_defined_after_stabilize
         [of "take 10 example_flight" "load_config None" 0 landed] flight_10
  have "state_start_pos landed \<noteq> None"
    by blast
  with flight_10 show ?thesis
    by (simp add: landed_def)
qed

subsection \<open>C6: the frame transform\<close>

text \<open>
  C6: for every displacement and every heading, \<^verbatim>\<open>decompose_displacement\<close> returns
  \<open>forward = dx\<cdot>cos \<theta> + dy\<cdot>sin \<theta>\<close> and \<open>lateral = dx\<cdot>sin \<theta> - dy\<cdot>cos \<theta>\<close>, and
  \<open>forward\<^sup>2 + lateral\<^sup>2 = dx\<^sup>2 + dy\<^sup>2\<close> over the reals.
\<close>

theorem decompose_displacement_distance_preserving:
  "decompose_displacement dx dy \<theta> = (dx * cos \<theta> + dy * sin \<theta>, dx * sin \<theta> - dy * cos \<theta>) \<and>
   (fst (decompose_displacement dx dy \<theta>))\<^sup>2 + (snd (decompose_displacement dx dy \<theta>))\<^sup>2
     = dx\<^sup>2 + dy\<^sup>2"
  using rotation_preserves_norm [of dx "cos \<theta>" dy "sin \<theta>"]
  by (simp add: decompose_displacement_def Let_def)

subsection \<open>C7: the vertical channel of the stabilizer\<close>

text \<open>
  C7: the vertical input is \<open>K_VERTICAL_P \<cdot> clamp(target_altitude - altitude +
  K_VERTICAL_OFFSET, -1, 1)\<^sup>3\<close>, the value that enters every motor command of a tick
  that does not leave the loop. As a function of the altitude error it is monotonically
  increasing (strictly so inside the clamp range), it is constant above and below the
  clamp range, and at zero error it is \<open>K_VERTICAL_OFFSET\<^sup>3 \<cdot> K_VERTICAL_P\<close>.
\<close>

theorem vertical_input_cubic_response:
  "vertical_input t a = K_VERTICAL_P * (max (- 1) (min (t - a + K_VERTICAL_OFFSET) 1)) ^ 3 \<and>
   (t1 - a1 \<le> t2 - a2 \<longrightarrow> vertical_input t1 a1 \<le> vertical_input t2 a2) \<and>
   (- 1 \<le> t1 - a1 + K_VERTICAL_OFFSET \<and> t1 - a1 < t2 - a2 \<and> t2 - a2 + K_VERTICAL_OFFSET \<le> 1
      \<longrightarrow> vertical_input t1 a1 < vertical_input t2 a2) \<and>
   (1 \<le> thi - ahi + K_VERTICAL_OFFSET \<longrightarrow> vertical_input thi ahi = K_VERTICAL_P) \<and>
   (tlo - alo + K_VERTICAL_OFFSET \<le> - 1 \<longrightarrow> vertical_input tlo alo = - K_VERTICAL_P) \<and>
   vertical_input tz tz = K_VERTICAL_OFFSET ^ 3 * K_VERTICAL_P \<and>
   (tick inp s = Inr (Step s1 out) \<longrightarrow>
      (\<exists>d. motor_velocities out = motor_control inp (target_altitude s1) d) \<and>
      (\<forall>d. motor_control inp (target_altitude s1) d =
         (let v = vertical_input (target_altitude s1) (altitude inp);
              r = K_ROLL_P * clamp (roll inp) (- 1) 1 + roll_velocity inp + roll_disturbance d;
              p = K_PITCH_P * clamp (pitch inp) (- 1) 1 + pitch_velocity inp + pitch_disturbance d;
              y = yaw_disturbance d
          in (K_VERTICAL_THRUST + v - r + p - y, - (K_VERTICAL_THRUST + v + r + p + y),
              - (K_VERTICAL_THRUST + v - r - p + y), K_VERTICAL_THRUST + v + r - p - y))))"
proof -
  have formula: "vertical_input t a = K_VERTICAL_P * (max (- 1) (min (t - a + K_VERTICAL_OFFSET) 1)) ^ 3"
    by (simp add: vertical_input_def clamp_def)
  have motors: "tick inp s = Inr (Step s1 out) \<longrightarrow>
      (\<exists>d. motor_velocities out = motor_control inp (target_altitude s1) d)"
    by (auto simp: tick_def Let_def split: sum.splits nav_result.splits)
  have control: "\<forall>d. motor_control inp (target_altitude s1) d =
         (let v = vertical_input (target_altitude s1) (altitude inp);
              r = K_ROLL_P * clamp (roll inp) (- 1) 1 + roll_velocity inp + roll_disturbance d;
              p = K_PITCH_P * clamp (pitch inp) (- 1) 1 + pitch_velocity inp + pitch_disturbance d;
              y = yaw_disturbance d
          in (K_VERTICAL_THRUST + v - r + p - y, - (K_VERTICAL_THRUST + v + r + p + y),
              - (K_VERTICAL_THRUST + v - r - p + y), K_VERTICAL_THRUST + v + r - p - y))"
    by (simp add: motor_control_def Let_def)
  show ?thesis
    using formula motors control vertical_input_mono [of t1 a1 t2 a2]
      vertical_input_strict [of t1 a1 t2 a2] vertical_input_saturates_high [of thi ahi]
      vertical_input_saturates_low [of tlo alo] vertical_input_zero_error [of tz]
    by blast
qed

text \<open>
  C7, witness: errors 0 and 0.2 lie inside the clamp range, errors 1 and -2 outside it; the
  tick completing side 1 of the example flight commands the motors from the vertical input
  at zero error.
\<close>

theorem vertical_input_cubic_response_witness:
  "(4::real) - 4 \<le> 4.2 - 4 \<and> vertical_input 4 4 \<le> vertical_input 4.2 4 \<and>
   vertical_input 4 4 < vertical_input 4.2 4 \<and>
   1 \<le> 5 - 4 + K_VERTICAL_OFFSET \<and> vertical_input 5 4 = K_VERTICAL_P \<and>
   2 - 4 + K_VERTICAL_OFFSET \<le> - 1 \<and> vertical_input 2 4 = - K_VERTICAL_P \<and>
   tick (reading 30 0 (0, - 20, 4)) side_1_start =
     Inr (Step side_1_end
            \<lparr>camera_roll = 0, camera_pitch = 0.3,
             motor_velocities = motor_control (reading 30 0 (0, - 20, 4)) 4
               \<lparr>roll_disturbance = - 1, pitch_disturbance = 0, yaw_disturbance = 0\<rparr>,
             saved_image = Some 1\<rparr>) \<and>
   motor_control (reading 30 0 (0, - 20, 4)) (target_altitude side_1_end)
       \<lparr>roll_disturbance = - 1, pitch_disturbance = 0, yaw_disturbance = 0\<rparr> =
     (K_VERTICAL_THRUST + vertical_input 4 4 + 1, - (K_VERTICAL_THRUST + vertical_input 4 4 - 1),
      - (K_VERTICAL_THRUST + vertical_input 4 4 + 1), K_VERTICAL_THRUST + vertical_input 4 4 - 1)"
proof -
  note inst = vertical_input_cubic_response [where ?t1.0 = 4 and ?a1.0 = 4 and ?t2.0 = "4.2"
      and ?a2.0 = 4 and thi = 5 and ahi = 4 and tlo = 2 and alo = 4
      and inp = "reading 30 0 (0, - 20, 4)" and s = side_1_start and ?s1.0 = side_1_end
      and out = "\<lparr>camera_roll = 0, camera_pitch = 0.3,
             motor_velocities = motor_control (reading 30 0 (0, - 20, 4)) 4
               \<lparr>roll_disturbance = - 1, pitch_disturbance = 0, yaw_disturbance = 0\<rparr>,
             saved_image = Some 1\<rparr>"]
  have h1: "(4::real) - 4 \<le> 4.2 - 4" by simp
  have h2: "- 1 \<le> (4::real) - 4 + K_VERTICAL_OFFSET \<and> (4::real) - 4 < 4.2 - 4 \<and>
      4.2 - 4 + K_VERTICAL_OFFSET \<le> 1"
    by (simp add: K_VERTICAL_OFFSET_def)
  have h3: "1 \<le> 5 - 4 + K_VERTICAL_OFFSET" by (simp add: K_VERTICAL_OFFSET_def)
  have h4: "2 - 4 + K_VERTICAL_OFFSET \<le> - 1" by (simp add: K_VERTICAL_OFFSET_def)
  from inst h1 have c1: "vertical_input 4 4 \<le> vertical_input 4.2 4" by blast
  from inst h2 have c2: "vertical_input 4 4 < vertical_input 4.2 4" by blast
  from inst h3 have c3: "vertical_input 5 4 = K_VERTICAL_P" by blast
  from inst h4 have c4: "vertical_input 2 4 = - K_VERTICAL_P" by blast
  from inst tick_3
  have "\<forall>d. motor_control (reading 30 0 (0, - 20, 4)) (target_altitude side_1_end) d =
         (let v = vertical_input (target_altitude side_1_end) (altitude (reading 30 0 (0, - 20, 4)));
              r = K_ROLL_P * clamp (roll (reading 30 0 (0, - 20, 4))) (- 1) 1 +
                  roll_velocity (reading 30 0 (0, - 20, 4)) + roll_disturbance d;
              p = K_PITCH_P * clamp (pitch (reading 30 0 (0, - 20, 4))) (- 1) 1 +
                  pitch_velocity (reading 30 0 (0, - 20, 4)) + pitch_disturbance d;
              y = yaw_disturbance d
          in (K_VERTICAL_THRUST + v - r + p - y, - (K_VERTICAL_THRUST + v + r + p + y),
              - (K_VERTICAL_THRUST + v - r - p + y), K_VERTICAL_THRUST + v + r - p - y))"
    by blast
  then have c5: "motor_control (reading 30 0 (0, - 20, 4)) (target_altitude side_1_end)
       \<lparr>roll_disturbance = - 1, pitch_disturbance = 0, yaw_disturbance = 0\<rparr> =
     (K_VERTICAL_THRUST + vertical_input 4 4 + 1, - (K_VERTICAL_THRUST + vertical_input 4 4 - 1),
      - (K_VERTICAL_THRUST + vertical_input 4 4 + 1), K_VERTICAL_THRUST + vertical_input 4 4 - 1)"
    by (simp add: Let_def side_1_end_def reading_def altitude_def clamp_def)
  from h1 h3 h4 c1 c2 c3 c4 c5 tick_3 show ?thesis
    by blast
qed

subsection \<open>C8: the inspection plan\<close>

text \<open>
  C8: the target altitude is half the building height and the side lengths are
  \<open>[length, breadth, length, breadth]\<close>; when the configuration file is absent the
  dimensions are 20, 10 and 8, so the target altitude is 4 and the sides are
  \<open>[20, 10, 20, 10]\<close>.
\<close>

theorem inspection_plan_from_config:
  "target_altitude (initial (load_config (Some cfg)) y0) = building_height cfg / 2 \<and>
   side_distances (initial (load_config (Some cfg)) y0) =
     [building_length cfg, building_breadth cfg, building_length cfg, building_breadth cfg] \<and>
   load_config None = \<lparr>building_length = 20, building_breadth = 10, building_height = 8\<rparr> \<and>
   target_altitude (initial (load_config None) y0) = 4 \<and>
   side_distances (initial (load_config None) y0) = [20, 10, 20, 10]"
  by (simp add: initial_def startup_def load_config_def)

subsection \<open>C9: the commanded yaw target\<close>

text \<open>
  C9 (as stated): the yaw target grows by \<open>\<pi>/2\<close> at each side completion. This fails at
  the completion of side 4: in the example flight the state before the ninth tick is
  \<^verbatim>\<open>SIDE_4\<close> with target \<open>3\<pi>/2\<close>, the ninth tick completes the side and moves to
  \<^verbatim>\<open>LAND\<close>, and the target is still \<open>3\<pi>/2\<close>.
\<close>

theorem yaw_unchanged_at_side_4_completion_counterexample:
  "map_sum id state (run (take 8 example_flight) (initial (load_config None) 0)) = Inr SIDE_4 \<and>
   map_sum id accumulated_yaw (run (take 8 example_flight) (initial (load_config None) 0)) =
     Inr (3 * pi / 2) \<and>
   map_sum id state (run (take 9 example_flight) (initial (load_config None) 0)) = Inr LAND \<and>
   map_sum id accumulated_yaw (run (take 9 example_flight) (initial (load_config None) 0)) =
     Inr (3 * pi / 2)"
  by (simp add: flight_8 flight_9)

text \<open>
  C9 (amended): the loop starts with the yaw target equal to the first yaw reading; a tick
  adds exactly \<open>\<pi>/2\<close> to it when it completes side 1, 2 or 3 and leaves it unchanged
  otherwise, also when it completes side 4; so the target never decreases along a run.
\<close>

theorem yaw_target_steps:
  "accumulated_yaw (initial cfg y0) = y0 \<and>
   (tick inp s = Inr (Step s1 out) \<longrightarrow>
      accumulated_yaw s1 =
        (if state s \<in> {SIDE_1, SIDE_2, SIDE_3} \<and> state s1 \<noteq> state s
         then accumulated_yaw s + pi / 2 else accumulated_yaw s)) \<and>
   (tick inp2 s2 = Inr (Exit s3 out2) \<longrightarrow> accumulated_yaw s3 = accumulated_yaw s2) \<and>
   (run inps s4 = Inr s5 \<longrightarrow> accumulated_yaw s4 \<le> accumulated_yaw s5)"
proof -
  have "accumulated_yaw (initial cfg y0) = y0"
    by (simp add: initial_def)
  moreover have "tick inp2 s2 = Inr (Exit s3 out2) \<longrightarrow> accumulated_yaw s3 = accumulated_yaw s2"
    by (simp add: tick_exit)
  ultimately show ?thesis
    using tick_yaw [of inp s s1 out] run_yaw_mono [of inps s4 s5] by blast
qed

text \<open>
  C9, witness: the tick completing side 1 of the example flight raises the target from 0
  to \<open>\<pi>/2\<close>, the last tick leaves the loop, and the target at the end is not below the
  initial one.
\<close>

theorem yaw_target_steps_witness:
  "tick (reading 30 0 (0, - 20, 4)) side_1_start =
     Inr (Step side_1_end
            \<lparr>camera_roll = 0, camera_pitch = 0.3,
             motor_velocities = motor_control (reading 30 0 (0, - 20, 4)) 4
               \<lparr>roll_disturbance = - 1, pitch_disturbance = 0, yaw_disturbance = 0\<rparr>,
             saved_image = Some 1\<rparr>) \<and>
   accumulated_yaw side_1_end = accumulated_yaw side_1_start + pi / 2 \<and>
   tick (reading 131 (- pi / 2) (0, 0, 0.2)) landed =
     Inr (Exit landed \<lparr>camera_roll = 0, camera_pitch = 0.3,
                       motor_velocities = (0, 0, 0, 0), saved_image = None\<rparr>) \<and>
   run (take 10 example_flight) (initial (load_config None) 0) = Inr landed \<and>
   accumulated_yaw (initial (load_config None) 0) \<le> accumulated_yaw landed"
proof -
  note inst = yaw_target_steps [where inp = "reading 30 0 (0, - 20, 4)" and s = side_1_start
      and ?s1.0 = side_1_end
      and out = "\<lparr>camera_roll = 0, camera_pitch = 0.3,
             motor_velocities = motor_control (reading 30 0 (0, - 20, 4)) 4
               \<lparr>roll_disturbance = - 1, pitch_disturbance = 0, yaw_disturbance = 0\<rparr>,
             saved_image = Some 1\<rparr>"
      and ?inp2.0 = "reading 131 (- pi / 2) (0, 0, 0.2)" and ?s2.0 = landed and ?s3.0 = landed
      and ?out2.0 = "\<lparr>camera_roll = 0, camera_pitch = 0.3,
                       motor_velocities = (0, 0, 0, 0), saved_image = None\<rparr>"
      and inps = "take 10 example_flight" and ?s4.0 = "initial (load_config None) 0"
      and ?s5.0 = landed]
  have ph: "state side_1_start \<in> {SIDE_1, SIDE_2, SIDE_3} \<and> state side_1_end \<noteq> state side_1_start"
    by (simp add: side_1_start_def side_1_end_def)
  from inst tick_3
  have "accumulated_yaw side_1_end =
        (if state side_1_start \<in> {SIDE_1, SIDE_2, SIDE_3} \<and> state side_1_end \<noteq> state side_1_start
         then accumulated_yaw side_1_start + pi / 2 else accumulated_yaw side_1_start)"
    by blast
  with ph have c1: "accumulated_yaw side_1_end = accumulated_yaw side_1_start + pi / 2"
    by simp
  from inst flight_10
  have c2: "accumulated_yaw (initial (load_config None) 0) \<le> accumulated_yaw landed"
    by blast
  from c1 c2 tick_3 tick_11 flight_10 show ?thesis
    by blast
qed

subsection \<open>C10: the threshold list is indexed in bounds\<close>

text \<open>
  C10: no run of the main loop from its initial state raises an exception. In every state
  it reaches, at most 4 images have been saved on the current side and the next tick raises
  nothing; in a side phase the threshold list has exactly 4 elements, so the index is in
  range whenever the guard \<^verbatim>\<open>images_taken_this_side < IMAGES_PER_SIDE\<close> holds and the
  capture check raises nothing. Every tick that enters a side phase leaves the count at 0
  and the four thresholds of \<^verbatim>\<open>begin_side\<close> for the new side length.
\<close>

theorem capture_index_in_bounds:
  "run inps (initial cfg y0) \<noteq> Inl e \<and>
   (run inps (initial cfg y0) = Inr s \<longrightarrow>
      images_taken_this_side s \<le> IMAGES_PER_SIDE \<and> IMAGES_PER_SIDE = 4 \<and>
      tick inp s \<noteq> Inl e2 \<and>
      (state s \<in> {SIDE_1, SIDE_2, SIDE_3, SIDE_4} \<longrightarrow>
         length (capture_distances s) = 4 \<and>
         (images_taken_this_side s < IMAGES_PER_SIDE \<longrightarrow>
            images_taken_this_side s < length (capture_distances s)) \<and>
         on_progress d s \<noteq> Inl e3)) \<and>
   (tick inp2 s2 = Inr (Step s3 out) \<and>
    state s2 \<notin> {SIDE_1, SIDE_2, SIDE_3, SIDE_4} \<and> state s3 \<in> {SIDE_1, SIDE_2, SIDE_3, SIDE_4} \<longrightarrow>
      images_taken_this_side s3 = 0 \<and>
      capture_distances s3 =
        [current_side_distance s3 * 1 / 4, current_side_distance s3 * 2 / 4,
         current_side_distance s3 * 3 / 4, current_side_distance s3 * 4 / 4])"
proof -
  note run_inv = invariant_run [OF invariant_initial [of cfg y0], of inps]
  have no_err: "run inps (initial cfg y0) \<noteq> Inl e"
    using run_inv by blast
  have reach: "run inps (initial cfg y0) = Inr s \<longrightarrow>
      images_taken_this_side s \<le> IMAGES_PER_SIDE \<and> IMAGES_PER_SIDE = 4 \<and>
      tick inp s \<noteq> Inl e2 \<and>
      (state s \<in> {SIDE_1, SIDE_2, SIDE_3, SIDE_4} \<longrightarrow>
         length (capture_distances s) = 4 \<and>
         (images_taken_this_side s < IMAGES_PER_SIDE \<longrightarrow>
            images_taken_this_side s < length (capture_distances s)) \<and>
         on_progress d s \<noteq> Inl e3)"
  proof
    assume "run inps (initial cfg y0) = Inr s"
    with run_inv have inv: "loop_invariant s" by blast
    have four: "IMAGES_PER_SIDE = 4" by (simp add: IMAGES_PER_SIDE_def)
    from inv have bound: "images_taken_this_side s \<le> IMAGES_PER_SIDE"
      by (simp add: loop_invariant_def)
    have sides: "length (capture_distances s) = 4 \<and>
         (images_taken_this_side s < IMAGES_PER_SIDE \<longrightarrow>
            images_taken_this_side s < length (capture_distances s)) \<and>
         on_progress d s \<noteq> Inl e3"
      if "state s \<in> {SIDE_1, SIDE_2, SIDE_3, SIDE_4}"
    proof -
      from that have "state s \<notin> {TAKEOFF, STABILIZE}" by auto
      with inv have len: "length (capture_distances s) = IMAGES_PER_SIDE"
        by (simp add: loop_invariant_def)
      then have "on_progress d s \<noteq> Inl e3"
        by (intro on_progress_no_error) simp
      with len four show ?thesis by simp
    qed
    from bound four tick_no_error [OF inv] sides
    show "images_taken_this_side s \<le> IMAGES_PER_SIDE \<and> IMAGES_PER_SIDE = 4 \<and>
      tick inp s \<noteq> Inl e2 \<and>
      (state s \<in> {SIDE_1, SIDE_2, SIDE_3, SIDE_4} \<longrightarrow>
         length (capture_distances s) = 4 \<and>
         (images_taken_this_side s < IMAGES_PER_SIDE \<longrightarrow>
            images_taken_this_side s < length (capture_distances s)) \<and>
         on_progress d s \<noteq> Inl e3)"
      by blast
  qed
  from no_err reach tick_enter_side [of inp2 s2 s3 out] show ?thesis
    by blast
qed

text \<open>
  C10, witness: the example flight reaches the start of side 1 after two ticks; the second
  tick enters the side phase from \<^verbatim>\<open>STABILIZE\<close>.
\<close>

theorem capture_index_in_bounds_witness:
  "run (take 2 example_flight) (initial (load_config None) 0) = Inr side_1_start \<and>
   state side_1_start = SIDE_1 \<and>
   images_taken_this_side side_1_start < length (capture_distances side_1_start) \<and>
   tick (reading 6 0 (0, 0, 4))
        ((initial (load_config None) 0)\<lparr>state := STABILIZE, stabilize_start_time := Some 2\<rparr>) =
     Inr (Step side_1_start
            \<lparr>camera_roll = 0, camera_pitch = 0.3,
             motor_velocities = motor_control (reading 6 0 (0, 0, 4)) 4 no_disturbance,
             saved_image = None\<rparr>) \<and>
   capture_distances side_1_start =
     [current_side_distance side_1_start * 1 / 4, current_side_distance side_1_start * 2 / 4,
      current_side_distance side_1_start * 3 / 4, current_side_distance side_1_start * 4 / 4]"
proof -
  note inst = capture_index_in_bounds [where inps = "take 2 example_flight"
      and cfg = "load_config None" and ?y0.0 = 0 and s = side_1_start
      and ?inp2.0 = "reading 6 0 (0, 0, 4)"
      and ?s2.0 = "(initial (load_config None) 0)\<lparr>state := STABILIZE, stabilize_start_time := Some 2\<rparr>"
      and ?s3.0 = side_1_start
      and out = "\<lparr>camera_roll = 0, camera_pitch = 0.3,
             motor_velocities = motor_control (reading 6 0 (0, 0, 4)) 4 no_disturbance,
             saved_image = None\<rparr>"]
  have ph: "state side_1_start = SIDE_1"
    by (simp add: side_1_start_def)
  then have sides: "state side_1_start \<in> {SIDE_1, SIDE_2, SIDE_3, SIDE_4}"
    by simp
  have zero: "images_taken_this_side side_1_start < IMAGES_PER_SIDE"
    by (simp add: side_1_start_def IMAGES_PER_SIDE_def)
  from inst flight_2 sides zero
  have c1: "images_taken_this_side side_1_start < length (capture_distances side_1_start)"
    by blast
  have before: "state ((initial (load_config None) 0)\<lparr>state := STABILIZE, stabilize_start_time := Some 2\<rparr>)
      \<notin> {SIDE_1, SIDE_2, SIDE_3, SIDE_4}"
    by simp
  from inst tick_2 before sides
  have c2: "capture_distances side_1_start =
     [current_side_distance side_1_start * 1 / 4, current_side_distance side_1_start * 2 / 4,
      current_side_distance side_1_start * 3 / 4, current_side_distance side_1_start * 4 / 4]"
    by blast
  from flight_2 ph c1 c2 tick_2 show ?thesis
    by blast
qed

end
